theory Spec2Isabelle
  imports Main
begin

section \<open>Scalar expressions\<close>

text \<open>
  The scalar expressions of \<^verbatim>\<open>pymbolic.primitives\<close> that the code generator of
  \<^verbatim>\<open>pytato/codegen.py\<close> meets: constants, variables, subscripts (an aggregate and a tuple
  of indices) and arithmetic with children.
\<close>

datatype ScalarExpression =
    Constant int
  | Variable string
  | Subscript ScalarExpression "ScalarExpression list"
  | Sum "ScalarExpression list"
  | Product "ScalarExpression list"
  | Quotient ScalarExpression ScalarExpression

type_synonym ShapeType = "ScalarExpression list"

type_synonym SymbolicIndex = "ScalarExpression list"

datatype dtype = Float64 | Float32 | Int64 | Int32

subsection \<open>Formatting of natural numbers\<close>

text \<open>
  Python's \<^verbatim>\<open>f"{d}"\<close> and \<^verbatim>\<open>"%d" % d\<close> for a non-negative integer: its decimal digits,
  most significant first, no leading zero.
\<close>

definition digit_char :: "nat \<Rightarrow> char" where
  "digit_char d = ''0123456789'' ! d"

fun str_nat :: "nat \<Rightarrow> string" where
  "str_nat n = (if n < 10 then [digit_char n] else str_nat (n div 10) @ [digit_char (n mod 10)])"

declare str_nat.simps [simp del]

text \<open>The reserved index name of dimension \<open>d\<close>: \<^verbatim>\<open>f"_{d}"\<close>.\<close>

definition dim_name :: "nat \<Rightarrow> string" where
  "dim_name d = ''_'' @ str_nat d"

subsection \<open>Substitution\<close>

text \<open>
  \<^verbatim>\<open>dict(pairs)\<close>: the pairs are stored in order, a later pair overwrites an earlier one
  with the same key.
\<close>

definition dict :: "('k \<times> 'v) list \<Rightarrow> ('k \<rightharpoonup> 'v)" where
  "dict ps = foldl (\<lambda>m (k, v). m(k \<mapsto> v)) Map.empty ps"

text \<open>
  Modelled from the spec: \<^verbatim>\<open>pytato.scalar_expr.substitute\<close> is not among the source
  files. The spec calls it a structural substitution, not a re-evaluation: a variable
  whose name is assigned is replaced by the assigned expression, every other node is
  rebuilt from its substituted children.
\<close>

fun substitute :: "ScalarExpression \<Rightarrow> (string \<rightharpoonup> ScalarExpression) \<Rightarrow> ScalarExpression" where
  "substitute (Constant c) m = Constant c"
| "substitute (Variable v) m = (case m v of Some e \<Rightarrow> e | None \<Rightarrow> Variable v)"
| "substitute (Subscript a idx) m = Subscript (substitute a m) (map (\<lambda>e. substitute e m) idx)"
| "substitute (Sum es) m = Sum (map (\<lambda>e. substitute e m) es)"
| "substitute (Product es) m = Product (map (\<lambda>e. substitute e m) es)"
| "substitute (Quotient a b) m = Quotient (substitute a m) (substitute b m)"

text \<open>\<^verbatim>\<open>Expression.__getitem__\<close> of pymbolic: the empty tuple gives the expression itself.\<close>

definition getitem :: "ScalarExpression \<Rightarrow> ScalarExpression list \<Rightarrow> ScalarExpression" where
  "getitem a subscript = (if subscript = [] then a else Subscript a subscript)"

section \<open>Generated results\<close>

text \<open>
  Python does not check the annotations of \<^verbatim>\<open>GeneratedResult.__init__\<close>: the attributes
  \<^verbatim>\<open>shape\<close> and \<^verbatim>\<open>dtype\<close> hold whatever the caller passes in that position. A value is
  therefore either a shape tuple or a dtype.
\<close>

datatype pyval = ShapeVal ShapeType | DtypeVal dtype

text \<open>
  \<^verbatim>\<open>len\<close> of such a value: the number of extents of a shape; a scalar numpy dtype has
  no fields and length 0.
\<close>

fun pylen :: "pyval \<Rightarrow> nat" where
  "pylen (ShapeVal sh) = length sh"
| "pylen (DtypeVal dt) = 0"

text \<open>The arguments are in the order of the constructors: name or expression, shape, dtype.\<close>

datatype GeneratedResult =
    ArrayResult (name: string) (shape: pyval) (dtype: pyval)
  | LoopyExpressionResult (expr: ScalarExpression) (shape: pyval) (dtype: pyval)

definition ndim :: "GeneratedResult \<Rightarrow> nat" where
  "ndim r = pylen (shape r)"

text \<open>
  The per-rewrite context. Its back-reference to the code generation state is the state
  that the functions below thread explicitly.
\<close>

record LoopyExpressionContext =
  depends_on :: "string set"
  reduction_bounds :: "(string \<times> ScalarExpression \<times> ScalarExpression) list"

definition update_depends_on :: "LoopyExpressionContext \<Rightarrow> string set \<Rightarrow> LoopyExpressionContext" where
  "update_depends_on context other = context\<lparr>depends_on := depends_on context \<union> other\<rparr>"

fun to_loopy_expression ::
  "GeneratedResult \<Rightarrow> SymbolicIndex \<Rightarrow> LoopyExpressionContext \<Rightarrow> ScalarExpression" where
  "to_loopy_expression (ArrayResult nm sh dt) indices context =
     (if indices = [] then Variable nm else getitem (Variable nm) indices)"
| "to_loopy_expression (LoopyExpressionResult e sh dt) indices context =
     substitute e
       (dict (zip (map dim_name [0..<ndim (LoopyExpressionResult e sh dt)]) indices))"

section \<open>Array expression graph\<close>

text \<open>
  Modelled from the spec: \<^verbatim>\<open>pytato/array.py\<close> is not among the source files. A node is
  an immutable value with an identity (the first field, so that two nodes with the same
  structure can still be told apart as dictionary keys). A placeholder has a name, a shape
  and a dtype; an output has a name and wraps one inner node, whose shape and dtype it
  has; an index lambda has a scalar expression, a shape, a dtype and named bindings to
  other nodes. \<open>DataWrapper\<close> stands for the node kinds of the package that the code
  generator has no method for.
\<close>

datatype Array =
    Placeholder nat string ShapeType dtype
  | Output nat string Array
  | IndexLambda nat ScalarExpression ShapeType dtype "(string \<times> Array) list"
  | DataWrapper nat string ShapeType dtype

fun shape_of :: "Array \<Rightarrow> ShapeType" where
  "shape_of (Placeholder i nm sh dt) = sh"
| "shape_of (Output i nm a) = shape_of a"
| "shape_of (IndexLambda i e sh dt bindings) = sh"
| "shape_of (DataWrapper i nm sh dt) = sh"

fun dtype_of :: "Array \<Rightarrow> dtype" where
  "dtype_of (Placeholder i nm sh dt) = dt"
| "dtype_of (Output i nm a) = dtype_of a"
| "dtype_of (IndexLambda i e sh dt bindings) = dt"
| "dtype_of (DataWrapper i nm sh dt) = dt"

type_synonym Namespace = "(string \<times> Array) list"

text \<open>
  \<^verbatim>\<open>collections.ChainMap\<close>: a list of mappings, searched from the first; a name bound in
  none of them is a \<^verbatim>\<open>KeyError\<close> (here \<open>None\<close>).
\<close>

fun chain_lookup :: "Namespace list \<Rightarrow> string \<Rightarrow> Array option" where
  "chain_lookup [] k = None"
| "chain_lookup (m # maps) k =
     (case map_of m k of Some v \<Rightarrow> Some v | None \<Rightarrow> chain_lookup maps k)"

section \<open>The kernel under construction\<close>

record GlobalArg =
  arg_name :: string
  arg_shape :: ShapeType
  arg_dtype :: dtype
  arg_order :: string
  is_output_only :: bool

record Assignment =
  assignees :: "ScalarExpression list"
  expression :: ScalarExpression
  insn_id :: string
  within_inames :: "string set"
  insn_depends_on :: "string set"

definition make_assignment ::
  "ScalarExpression list \<Rightarrow> ScalarExpression \<Rightarrow> string \<Rightarrow> string set \<Rightarrow> string set
     \<Rightarrow> Assignment" where
  "make_assignment lhs rhs i inames deps =
     \<lparr>assignees = lhs, expression = rhs, insn_id = i, within_inames = inames,
      insn_depends_on = deps\<rparr>"

text \<open>
  Modelled from the spec: \<^verbatim>\<open>pytato.scalar_expr.domain_for_shape\<close> is not among the source
  files. The spec describes an iteration domain as named loop variables with extents
  derived from a shape; the domain records the loop variable names and, in the same
  order, the extents it was built from.
\<close>

record Domain =
  dim_names :: "string list"
  extents :: ShapeType

definition domain_for_shape :: "string list \<Rightarrow> ShapeType \<Rightarrow> Domain" where
  "domain_for_shape inames sh = \<lparr>dim_names = inames, extents = sh\<rparr>"

record LoopKernel =
  args :: "GlobalArg list"
  instructions :: "Assignment list"
  domains :: "Domain list"

text \<open>\<^verbatim>\<open>lp.make_kernel("{:}", [])\<close>: no arguments, no instructions, the one domain without loop variables.\<close>

definition make_kernel :: LoopKernel where
  "make_kernel = \<lparr>args = [], instructions = [], domains = [domain_for_shape [] []]\<rparr>"

subsection \<open>Unique names\<close>

text \<open>
  The name generators of the kernel are \<^verbatim>\<open>pytools.UniqueNameGenerator\<close>s: a set of names
  taken so far (here a list, newest first). A call tries \<open>based_on\<close>, then
  \<open>based_on_0\<close>, \<open>based_on_1\<close>, and so on, takes the first name that is not in the set,
  adds it and returns it.
\<close>

function first_unused :: "string \<Rightarrow> string list \<Rightarrow> nat \<Rightarrow> string" where
  "first_unused prefix existing_names try_num =
     (let var_name = prefix @ ''_'' @ str_nat try_num
      in if var_name \<in> set existing_names
         then first_unused prefix existing_names (Suc try_num)
         else var_name)"
  by pat_completeness auto
termination
proof -
  have dc: "digit_char a = digit_char b \<Longrightarrow> a = b" if "a < 10" "b < 10" for a b
  proof -
    have "a \<in> {0,1,2,3,4,5,6,7,8,9}" "b \<in> {0,1,2,3,4,5,6,7,8,9}"
      using that by auto
    then show "digit_char a = digit_char b \<Longrightarrow> a = b"
      by (auto simp: digit_char_def)
  qed
  have ne: "str_nat n \<noteq> []" for n
    by (subst str_nat.simps) simp
  have inj: "str_nat n = str_nat m \<Longrightarrow> n = m" for n m
  proof (induction n arbitrary: m rule: str_nat.induct)
    case (1 n)
    show ?case
    proof (cases "n < 10")
      case True
      then have sn: "str_nat n = [digit_char n]" by (subst str_nat.simps) simp
      show ?thesis
      proof (cases "m < 10")
        case mT: True
        then have "str_nat m = [digit_char m]" by (subst str_nat.simps) simp
        with sn "1.prems" True mT show ?thesis using dc by simp
      next
        case mF: False
        then have "str_nat m = str_nat (m div 10) @ [digit_char (m mod 10)]"
          by (subst str_nat.simps) simp
        with sn "1.prems" ne[of "m div 10"] show ?thesis by simp
      qed
    next
      case False
      then have sn: "str_nat n = str_nat (n div 10) @ [digit_char (n mod 10)]"
        by (subst str_nat.simps) simp
      show ?thesis
      proof (cases "m < 10")
        case mT: True
        then have "str_nat m = [digit_char m]" by (subst str_nat.simps) simp
        with sn "1.prems" ne[of "n div 10"] show ?thesis by simp
      next
        case mF: False
        then have sm: "str_nat m = str_nat (m div 10) @ [digit_char (m mod 10)]"
          by (subst str_nat.simps) simp
        from sn sm "1.prems" have e1: "str_nat (n div 10) = str_nat (m div 10)"
          and e2: "digit_char (n mod 10) = digit_char (m mod 10)" by simp_all
        from "1.IH"[OF False e1] have d: "n div 10 = m div 10" .
        from e2 have r: "n mod 10 = m mod 10" using dc[of "n mod 10" "m mod 10"] by simp
        from d r show ?thesis by (metis div_mult_mod_eq)
      qed
    qed
  qed
  have fin: "finite {j. p @ ''_'' @ str_nat j \<in> set ex}" for p ex
  proof -
    have "inj (\<lambda>j. p @ ''_'' @ str_nat j)"
      by (rule injI) (simp add: inj)
    then have "finite ((\<lambda>j. p @ ''_'' @ str_nat j) -` set ex)"
      by (rule finite_vimageI[rotated]) simp
    then show ?thesis by (simp add: vimage_def)
  qed
  show ?thesis
  proof (relation "measure (\<lambda>(p, ex, k). card {j. k \<le> j \<and> p @ ''_'' @ str_nat j \<in> set ex})")
    show "wf (measure (\<lambda>(p, ex, k). card {j. k \<le> j \<and> p @ ''_'' @ str_nat j \<in> set ex}))"
      by simp
  next
    fix prefix :: string and existing_names :: "string list" and try_num :: nat and x :: string
    assume x: "x = prefix @ ''_'' @ str_nat try_num" and mem: "x \<in> set existing_names"
    let ?A = "\<lambda>k. {j. k \<le> j \<and> prefix @ ''_'' @ str_nat j \<in> set existing_names}"
    have f: "finite (?A try_num)"
      by (rule finite_subset[OF _ fin[of prefix existing_names]]) auto
    have "try_num \<in> ?A try_num" using x mem by simp
    moreover have "try_num \<notin> ?A (Suc try_num)" by simp
    moreover have "?A (Suc try_num) \<subseteq> ?A try_num" by auto
    ultimately have "?A (Suc try_num) \<subset> ?A try_num" by blast
    then have "card (?A (Suc try_num)) < card (?A try_num)"
      using f by (rule psubset_card_mono[rotated])
    then show "((prefix, existing_names, Suc try_num), (prefix, existing_names, try_num))
        \<in> measure (\<lambda>(p, ex, k). card {j. k \<le> j \<and> p @ ''_'' @ str_nat j \<in> set ex})"
      by simp
  qed
qed

declare first_unused.simps [simp del]

definition unique_name :: "string list \<Rightarrow> string \<Rightarrow> string \<times> string list" where
  "unique_name existing_names based_on =
     (let var_name = (if based_on \<in> set existing_names
                      then first_unused based_on existing_names 0
                      else based_on)
      in (var_name, var_name # existing_names))"

text \<open>One call of the generator for each base name, in order.\<close>

fun unique_names :: "string list \<Rightarrow> string list \<Rightarrow> string list \<times> string list" where
  "unique_names existing_names [] = ([], existing_names)"
| "unique_names existing_names (b # bs) =
     (let (v, g1) = unique_name existing_names b;
          (vs, g2) = unique_names g1 bs
      in (v # vs, g2))"

section \<open>Code generation state\<close>

record CodeGenState =
  namespace :: "Namespace list"
  kernel :: LoopKernel
  results :: "Array \<rightharpoonup> GeneratedResult"
  var_name_gen :: "string list"
  insn_id_gen :: "string list"

definition update_kernel :: "CodeGenState \<Rightarrow> LoopKernel \<Rightarrow> CodeGenState" where
  "update_kernel state k = state\<lparr>kernel := k\<rparr>"

definition make_expression_context ::
  "string set \<Rightarrow> (string \<times> ScalarExpression \<times> ScalarExpression) list option
     \<Rightarrow> LoopyExpressionContext" where
  "make_expression_context deps rb =
     \<lparr>depends_on = deps,
      reduction_bounds = (case rb of None \<Rightarrow> [] | Some b \<Rightarrow> b)\<rparr>"

datatype error =
    KeyError string
  | AssertionError
  | IndexError
  | UnsupportedArray
  | RecursionError

type_synonym 'a outcome = "(error + 'a) \<times> CodeGenState"

section \<open>The graph walker\<close>

text \<open>
  A raised exception leaves the state as the statements before it have mutated it, so
  every function returns the state together with either the error or the value.
\<close>

fun map_placeholder :: "Array \<Rightarrow> CodeGenState \<Rightarrow> GeneratedResult outcome" where
  "map_placeholder (Placeholder i nm sh dt) state =
     (case results state (Placeholder i nm sh dt) of
        Some r \<Rightarrow> (Inr r, state)
      | None \<Rightarrow>
          (let arg = \<lparr>arg_name = nm, arg_shape = sh, arg_dtype = dt, arg_order = ''C'',
                      is_output_only = False\<rparr>;
               k = (kernel state)\<lparr>args := args (kernel state) @ [arg]\<rparr>;
               state1 = update_kernel state k;
               result = ArrayResult nm (DtypeVal dt) (ShapeVal sh)
           in (Inr result,
               state1\<lparr>results := (results state1)(Placeholder i nm sh dt \<mapsto> result)\<rparr>)))"

text \<open>
  \<open>map_output\<close> takes the walker it recurses with (\<^verbatim>\<open>self.rec\<close>) as its first argument.
\<close>

fun map_output ::
  "(Array \<Rightarrow> CodeGenState \<Rightarrow> GeneratedResult outcome)
     \<Rightarrow> Array \<Rightarrow> CodeGenState \<Rightarrow> GeneratedResult outcome" where
  "map_output rec (Output i nm a) state =
     (case results state (Output i nm a) of
        Some r \<Rightarrow> (Inr r, state)
      | None \<Rightarrow>
          if shape_of (Output i nm a) = [] then (Inl AssertionError, state)
          else
            (case rec a state of
               (Inl e, state1) \<Rightarrow> (Inl e, state1)
             | (Inr inner_result, state1) \<Rightarrow>
                 (let (inames, g) =
                        unique_names (var_name_gen state1)
                          (map (\<lambda>d. nm @ ''_dim'' @ str_nat d)
                             [0..<length (shape_of (Output i nm a))]);
                      state2 = state1\<lparr>var_name_gen := g\<rparr>;
                      domain = domain_for_shape inames (shape_of (Output i nm a));
                      arg = \<lparr>arg_name = nm, arg_shape = shape_of (Output i nm a),
                             arg_dtype = dtype_of (Output i nm a), arg_order = ''C'',
                             is_output_only = True\<rparr>;
                      indices = map Variable inames;
                      context = make_expression_context {} None;
                      copy_expr = to_loopy_expression inner_result indices context
                  in if reduction_bounds context \<noteq> [] then (Inl AssertionError, state2)
                     else if depends_on context \<noteq> {} then (Inl AssertionError, state2)
                     else
                       (let (iid, g') = unique_name (insn_id_gen state2) (nm @ ''_copy'');
                            state3 = state2\<lparr>insn_id_gen := g'\<rparr>;
                            insn = make_assignment [getitem (Variable nm) indices] copy_expr
                                     iid (set inames) (depends_on context);
                            k = kernel state3;
                            k' = k\<lparr>args := args k @ [arg],
                                   instructions := instructions k @ [insn],
                                   domains := domains k @ [domain]\<rparr>;
                            state4 = update_kernel state3 k';
                            result = ArrayResult nm (DtypeVal (dtype_of (Output i nm a)))
                                       (ShapeVal (shape_of (Output i nm a)))
                        in (Inr result,
                            state4\<lparr>results := (results state4)(Output i nm a \<mapsto> result)\<rparr>)))))"

text \<open>
  \<open>map_index_lambda\<close> takes the expression mapper (\<^verbatim>\<open>self.exprgen_mapper\<close>) as its first
  argument. \<open>chain_namespaces\<close> is a generator-based context manager without a
  \<^verbatim>\<open>try\<close>/\<^verbatim>\<open>finally\<close>: it inserts the local namespace at position 0, and the statement
  after its \<^verbatim>\<open>yield\<close>, which pops position 0, runs only when the body of the \<^verbatim>\<open>with\<close>
  block ends without an exception.
\<close>

fun map_index_lambda ::
  "(ScalarExpression \<Rightarrow> LoopyExpressionContext \<Rightarrow> CodeGenState \<Rightarrow> ScalarExpression outcome)
     \<Rightarrow> Array \<Rightarrow> CodeGenState \<Rightarrow> GeneratedResult outcome" where
  "map_index_lambda exprgen_mapper (IndexLambda i e sh dt bindings) state =
     (case results state (IndexLambda i e sh dt bindings) of
        Some r \<Rightarrow> (Inr r, state)
      | None \<Rightarrow>
          (let chained_state = state\<lparr>namespace := bindings # namespace state\<rparr>;
               expr_context = make_expression_context {} None
           in case exprgen_mapper e expr_context chained_state of
                (Inl err, state1) \<Rightarrow> (Inl err, state1)
              | (Inr loopy_expr, state1) \<Rightarrow>
                  (case namespace state1 of
                     [] \<Rightarrow> (Inl IndexError, state1)
                   | m # maps \<Rightarrow>
                       (let state2 = state1\<lparr>namespace := maps\<rparr>;
                            result = LoopyExpressionResult loopy_expr (ShapeVal sh) (DtypeVal dt)
                        in (Inr result,
                            state2\<lparr>results :=
                              (results state2)(IndexLambda i e sh dt bindings \<mapsto> result)\<rparr>)))))"

section \<open>The scalar expression rewriter\<close>

text \<open>
  \<open>LoopyExpressionGenMapper\<close> is an identity mapper of pymbolic with two methods of its
  own, for variables and for subscripts; its first argument is the graph walker it calls
  (\<^verbatim>\<open>self.codegen_mapper\<close>). The children of a node are rewritten from left to right.
\<close>

fun LoopyExpressionGenMapper ::
  "(Array \<Rightarrow> CodeGenState \<Rightarrow> GeneratedResult outcome)
     \<Rightarrow> ScalarExpression \<Rightarrow> LoopyExpressionContext \<Rightarrow> CodeGenState \<Rightarrow> ScalarExpression outcome"
and map_children ::
  "(Array \<Rightarrow> CodeGenState \<Rightarrow> GeneratedResult outcome)
     \<Rightarrow> ScalarExpression list \<Rightarrow> LoopyExpressionContext \<Rightarrow> CodeGenState
     \<Rightarrow> ScalarExpression list outcome" where
  "LoopyExpressionGenMapper cg (Constant c) context state = (Inr (Constant c), state)"
| "LoopyExpressionGenMapper cg (Variable v) context state =
     (case chain_lookup (namespace state) v of
        None \<Rightarrow> (Inl (KeyError v), state)
      | Some node \<Rightarrow>
          (case cg node state of
             (Inl e, state1) \<Rightarrow> (Inl e, state1)
           | (Inr result, state1) \<Rightarrow> (Inr (to_loopy_expression result [] context), state1)))"
| "LoopyExpressionGenMapper cg (Subscript aggregate index) context state =
     (case aggregate of
        Variable v \<Rightarrow>
          (case chain_lookup (namespace state) v of
             None \<Rightarrow> (Inl (KeyError v), state)
           | Some node \<Rightarrow>
               (case cg node state of
                  (Inl e, state1) \<Rightarrow> (Inl e, state1)
                | (Inr result, state1) \<Rightarrow>
                    (Inr (to_loopy_expression result index context), state1)))
      | _ \<Rightarrow> (Inl AssertionError, state))"
| "LoopyExpressionGenMapper cg (Sum children) context state =
     (case map_children cg children context state of
        (Inl e, state1) \<Rightarrow> (Inl e, state1)
      | (Inr cs, state1) \<Rightarrow> (Inr (Sum cs), state1))"
| "LoopyExpressionGenMapper cg (Product children) context state =
     (case map_children cg children context state of
        (Inl e, state1) \<Rightarrow> (Inl e, state1)
      | (Inr cs, state1) \<Rightarrow> (Inr (Product cs), state1))"
| "LoopyExpressionGenMapper cg (Quotient numerator denominator) context state =
     (case LoopyExpressionGenMapper cg numerator context state of
        (Inl e, state1) \<Rightarrow> (Inl e, state1)
      | (Inr n, state1) \<Rightarrow>
          (case LoopyExpressionGenMapper cg denominator context state1 of
             (Inl e, state2) \<Rightarrow> (Inl e, state2)
           | (Inr d, state2) \<Rightarrow> (Inr (Quotient n d), state2)))"
| "map_children cg [] context state = (Inr [], state)"
| "map_children cg (c # cs) context state =
     (case LoopyExpressionGenMapper cg c context state of
        (Inl e, state1) \<Rightarrow> (Inl e, state1)
      | (Inr c', state1) \<Rightarrow>
          (case map_children cg cs context state1 of
             (Inl e, state2) \<Rightarrow> (Inl e, state2)
           | (Inr cs', state2) \<Rightarrow> (Inr (c' # cs'), state2)))"

section \<open>Dispatch\<close>

text \<open>
  Modelled from the spec: \<^verbatim>\<open>pytato.transform.Mapper\<close> is not among the source files. The
  walker dispatches on the variant of the node; a variant without a method is fatal. The
  first argument bounds the depth of nested node lowerings, as the interpreter's recursion
  limit does: beyond it the call raises \<^verbatim>\<open>RecursionError\<close>.
\<close>

fun CodeGenMapper :: "nat \<Rightarrow> Array \<Rightarrow> CodeGenState \<Rightarrow> GeneratedResult outcome" where
  "CodeGenMapper 0 node state = (Inl RecursionError, state)"
| "CodeGenMapper (Suc depth) node state =
     (case node of
        Placeholder i nm sh dt \<Rightarrow> map_placeholder node state
      | Output i nm a \<Rightarrow> map_output (CodeGenMapper depth) node state
      | IndexLambda i e sh dt bindings \<Rightarrow>
          map_index_lambda (LoopyExpressionGenMapper (CodeGenMapper depth)) node state
      | DataWrapper i nm sh dt \<Rightarrow> (Inl UnsupportedArray, state))"

section \<open>Entry point\<close>

text \<open>
  The three kinds of input of \<open>generate_loopy\<close>. An array, and a dictionary of named
  arrays, belong to a namespace (\<^verbatim>\<open>arrays.namespace\<close>), which comes with them.
\<close>

datatype codegen_input =
    InNamespace Namespace
  | InArray Namespace Array
  | InDictOfNamedArrays Namespace "(string \<times> Array) list"

text \<open>
  Modelled from the spec: \<^verbatim>\<open>copy_namespace\<close> and \<^verbatim>\<open>CopyMapper\<close> are not among the source
  files; the sharing-preserving copy of an immutable graph is the graph itself. Each
  constructed \<open>Output\<close> registers itself in the namespace under its name; its identity is
  taken from the counter \<open>next_id\<close>.
\<close>

fun promote_loop ::
  "nat \<Rightarrow> string list \<Rightarrow> Namespace \<Rightarrow> (string \<times> Array) list \<Rightarrow> Namespace" where
  "promote_loop next_id name_gen result [] = result"
| "promote_loop next_id name_gen result ((nm, val) # rest) =
     (let (nm', name_gen') = unique_name name_gen nm
      in promote_loop (Suc next_id) name_gen' (result @ [(nm', Output next_id nm' val)]) rest)"

definition promote_named_arrays_to_outputs ::
  "nat \<Rightarrow> Namespace \<Rightarrow> (string \<times> Array) list \<Rightarrow> Namespace" where
  "promote_named_arrays_to_outputs next_id arrays_namespace arrays =
     (let result = arrays_namespace;
          name_gen = map fst result
      in promote_loop next_id name_gen result arrays)"

text \<open>The loop over the items of the namespace; it ends at the first exception.\<close>

fun lower_all :: "nat \<Rightarrow> (string \<times> Array) list \<Rightarrow> CodeGenState \<Rightarrow> unit outcome" where
  "lower_all depth [] state = (Inr (), state)"
| "lower_all depth ((nm, val) # rest) state =
     (case CodeGenMapper depth val state of
        (Inl e, state1) \<Rightarrow> (Inl e, state1)
      | (Inr r, state1) \<Rightarrow> lower_all depth rest state1)"

record BoundProgram =
  program :: LoopKernel
  bound_arguments :: "(string \<times> int) list"

definition initial_state :: "Namespace \<Rightarrow> CodeGenState" where
  "initial_state ns =
     \<lparr>namespace = [ns], kernel = make_kernel, results = Map.empty,
      var_name_gen = [], insn_id_gen = []\<rparr>"

definition generate_loopy :: "nat \<Rightarrow> nat \<Rightarrow> codegen_input \<Rightarrow> error + BoundProgram" where
  "generate_loopy depth next_id result_or_namespace =
     (let r1 = (case result_or_namespace of
                  InArray ns a \<Rightarrow> InDictOfNamedArrays ns [(''out'', a)]
                | other \<Rightarrow> other);
          r2 = (case r1 of
                  InDictOfNamedArrays ns arrays \<Rightarrow>
                    InNamespace (promote_named_arrays_to_outputs next_id ns arrays)
                | other \<Rightarrow> other)
      in case r2 of
           InNamespace ns \<Rightarrow>
             (case lower_all depth ns (initial_state ns) of
                (Inl e, state1) \<Rightarrow> Inl e
              | (Inr u, state1) \<Rightarrow> Inr \<lparr>program = kernel state1, bound_arguments = []\<rparr>)
         | _ \<Rightarrow> Inl AssertionError)"

section \<open>Notions used to state the properties\<close>

text \<open>
  The nodes that the walker can enter into the result cache: it has no method for a
  \<open>DataWrapper\<close>, and \<open>map_output\<close> stops at an output without dimensions.
\<close>

fun lowerable :: "Array \<Rightarrow> bool" where
  "lowerable (Placeholder i nm sh dt) = True"
| "lowerable (Output i nm a) = (shape_of a \<noteq> [])"
| "lowerable (IndexLambda i e sh dt bindings) = True"
| "lowerable (DataWrapper i nm sh dt) = False"

definition cache_ok :: "CodeGenState \<Rightarrow> bool" where
  "cache_ok state = (\<forall>node r. results state node = Some r \<longrightarrow> lowerable node)"

text \<open>
  The spec's reading of rendering an expression result at an index tuple: a variable
  whose name is the reserved name of a dimension \<open>d\<close> of the tuple becomes the index at
  position \<open>d\<close>; everything else keeps its structure.
\<close>

definition dim_of_name :: "nat \<Rightarrow> string \<Rightarrow> nat option" where
  "dim_of_name n v = find (\<lambda>d. dim_name d = v) [0..<n]"

fun substitute_indices :: "SymbolicIndex \<Rightarrow> ScalarExpression \<Rightarrow> ScalarExpression" where
  "substitute_indices indices (Constant c) = Constant c"
| "substitute_indices indices (Variable v) =
     (case dim_of_name (length indices) v of Some d \<Rightarrow> indices ! d | None \<Rightarrow> Variable v)"
| "substitute_indices indices (Subscript a idx) =
     Subscript (substitute_indices indices a) (map (substitute_indices indices) idx)"
| "substitute_indices indices (Sum es) = Sum (map (substitute_indices indices) es)"
| "substitute_indices indices (Product es) = Product (map (substitute_indices indices) es)"
| "substitute_indices indices (Quotient a b) =
     Quotient (substitute_indices indices a) (substitute_indices indices b)"

text \<open>A kernel none of whose instructions depends on another instruction.\<close>

definition no_dependencies :: "LoopKernel \<Rightarrow> bool" where
  "no_dependencies k = list_all (\<lambda>insn. insn_depends_on insn = {}) (instructions k)"

text \<open>Every output in the cache has its output-only buffer among the kernel's arguments.\<close>

definition outputs_have_buffers :: "CodeGenState \<Rightarrow> bool" where
  "outputs_have_buffers state =
     (\<forall>i nm a r. results state (Output i nm a) = Some r
        \<longrightarrow> (\<exists>arg \<in> set (args (kernel state)). arg_name arg = nm \<and> is_output_only arg))"




text \<open>
  The names that the rewriter resolves in an expression: those of its variables and of the
  aggregates of its subscripts (the indices of a subscript are not rewritten).
\<close>

fun looked_up :: "ScalarExpression \<Rightarrow> string list" where
  "looked_up (Constant c) = []"
| "looked_up (Variable v) = [v]"
| "looked_up (Subscript aggregate index) = (case aggregate of Variable v \<Rightarrow> [v] | _ \<Rightarrow> [])"
| "looked_up (Sum children) = concat (map looked_up children)"
| "looked_up (Product children) = concat (map looked_up children)"
| "looked_up (Quotient numerator denominator) = looked_up numerator @ looked_up denominator"



text \<open>
  A node that contains no output, and in which no expression resolves the name \<open>nm\<close>.
\<close>

fun plain_for :: "string \<Rightarrow> Array \<Rightarrow> bool" where
  "plain_for nm (Placeholder i n sh dt) = True"
| "plain_for nm (Output i n a) = False"
| "plain_for nm (IndexLambda i e sh dt bindings) =
     (nm \<notin> set (looked_up e) \<and> list_all (plain_for nm) (map snd bindings))"
| "plain_for nm (DataWrapper i n sh dt) = True"

text \<open>
  Every node that a chain of scopes binds under a name other than \<open>nm\<close> is plain; and a
  state with such a chain whose kernel has exactly the output-only arguments \<open>outs\<close>.
\<close>

definition chain_plain :: "string \<Rightarrow> Namespace list \<Rightarrow> bool" where
  "chain_plain nm chain =
     (\<forall>m \<in> set chain. \<forall>(k, x) \<in> set m. k \<noteq> nm \<longrightarrow> plain_for nm x)"

definition plain_state :: "string \<Rightarrow> GlobalArg list \<Rightarrow> CodeGenState \<Rightarrow> bool" where
  "plain_state nm outs state =
     (chain_plain nm (namespace state)
      \<and> filter is_output_only (args (kernel state)) = outs)"

section \<open>Auxiliary facts\<close>

subsection \<open>Number formatting and fresh names\<close>

lemma digit_char_inj: "a < 10 \<Longrightarrow> b < 10 \<Longrightarrow> digit_char a = digit_char b \<Longrightarrow> a = b"
proof -
  assume "a < 10" "b < 10"
  then have "a \<in> {0,1,2,3,4,5,6,7,8,9}" "b \<in> {0,1,2,3,4,5,6,7,8,9}" by auto
  then show "digit_char a = digit_char b \<Longrightarrow> a = b"
    by (auto simp: digit_char_def)
qed

lemma str_nat_small: "n < 10 \<Longrightarrow> str_nat n = [digit_char n]"
  by (subst str_nat.simps) simp

lemma str_nat_large: "\<not> n < 10 \<Longrightarrow> str_nat n = str_nat (n div 10) @ [digit_char (n mod 10)]"
  by (subst str_nat.simps) simp

lemma str_nat_nonempty: "str_nat n \<noteq> []"
  by (subst str_nat.simps) simp

lemma str_nat_inj: "str_nat n = str_nat m \<Longrightarrow> n = m"
proof (induction n arbitrary: m rule: str_nat.induct)
  case (1 n)
  show ?case
  proof (cases "n < 10")
    case True
    show ?thesis
    proof (cases "m < 10")
      case mT: True
      with True "1.prems" show ?thesis
        by (simp add: str_nat_small digit_char_inj)
    next
      case mF: False
      with True "1.prems" str_nat_nonempty[of "m div 10"] show ?thesis
        by (simp add: str_nat_small str_nat_large)
    qed
  next
    case False
    show ?thesis
    proof (cases "m < 10")
      case mT: True
      with False "1.prems" str_nat_nonempty[of "n div 10"] show ?thesis
        by (simp add: str_nat_small str_nat_large)
    next
      case mF: False
      with False "1.prems" have e1: "str_nat (n div 10) = str_nat (m div 10)"
        and e2: "digit_char (n mod 10) = digit_char (m mod 10)"
        by (simp_all add: str_nat_large)
      from "1.IH"[OF False e1] have d: "n div 10 = m div 10" .
      from e2 have r: "n mod 10 = m mod 10"
        using digit_char_inj[of "n mod 10" "m mod 10"] by simp
      from d r show ?thesis by (metis div_mult_mod_eq)
    qed
  qed
qed

lemma dim_name_inj: "dim_name a = dim_name b \<Longrightarrow> a = b"
  by (simp add: dim_name_def str_nat_inj)

lemma first_unused_fresh: "first_unused p ex k \<notin> set ex"
proof (induction p ex k rule: first_unused.induct)
  case (1 prefix existing_names try_num)
  then show ?case
    by (subst first_unused.simps) (simp add: Let_def)
qed

lemma unique_name_fresh: "fst (unique_name g b) \<notin> set g"
  by (simp add: unique_name_def Let_def first_unused_fresh)

lemma unique_name_snd: "snd (unique_name g b) = fst (unique_name g b) # g"
  by (simp add: unique_name_def Let_def)

lemma unique_name_unused: "b \<notin> set g \<Longrightarrow> fst (unique_name g b) = b"
  by (simp add: unique_name_def)

lemma unique_names_length: "length (fst (unique_names g bs)) = length bs"
proof (induction bs arbitrary: g)
  case Nil
  then show ?case by simp
next
  case (Cons b bs)
  obtain v g1 where u: "unique_name g b = (v, g1)" by (cases "unique_name g b")
  obtain vs g2 where us: "unique_names g1 bs = (vs, g2)" by (cases "unique_names g1 bs")
  from Cons.IH[of g1] us have "length vs = length bs" by simp
  with u us show ?case by simp
qed

lemma unique_names_snd: "set (snd (unique_names g bs)) = set (fst (unique_names g bs)) \<union> set g"
proof (induction bs arbitrary: g)
  case Nil
  then show ?case by simp
next
  case (Cons b bs)
  obtain v g1 where u: "unique_name g b = (v, g1)" by (cases "unique_name g b")
  obtain vs g2 where us: "unique_names g1 bs = (vs, g2)" by (cases "unique_names g1 bs")
  from unique_name_snd[of g b] u have g1: "g1 = v # g" by simp
  from Cons.IH[of g1] us have "set g2 = set vs \<union> set g1" by simp
  with u us g1 show ?case by auto
qed

lemma unique_names_fresh:
  "distinct (fst (unique_names g bs)) \<and> set (fst (unique_names g bs)) \<inter> set g = {}"
proof (induction bs arbitrary: g)
  case Nil
  then show ?case by simp
next
  case (Cons b bs)
  obtain v g1 where u: "unique_name g b = (v, g1)" by (cases "unique_name g b")
  obtain vs g2 where us: "unique_names g1 bs = (vs, g2)" by (cases "unique_names g1 bs")
  from unique_name_snd[of g b] u have g1: "g1 = v # g" by simp
  from unique_name_fresh[of g b] u have vf: "v \<notin> set g" by simp
  from Cons.IH[of g1] us have "distinct vs" "set vs \<inter> set g1 = {}" by simp_all
  with u us g1 vf show ?case by auto
qed


subsection \<open>The three node methods, case by case\<close>

lemma context_empty [simp]:
  "depends_on (make_expression_context {} None) = {}"
  "reduction_bounds (make_expression_context {} None) = []"
  by (simp_all add: make_expression_context_def)

lemma map_placeholder_first_visit:
  assumes "results s (Placeholder i nm sh dt) = None"
  shows "map_placeholder (Placeholder i nm sh dt) s =
    (Inr (ArrayResult nm (DtypeVal dt) (ShapeVal sh)),
     s\<lparr>kernel := (kernel s)\<lparr>args := args (kernel s) @
            [\<lparr>arg_name = nm, arg_shape = sh, arg_dtype = dt, arg_order = ''C'',
              is_output_only = False\<rparr>]\<rparr>,
       results := (results s)(Placeholder i nm sh dt \<mapsto>
            ArrayResult nm (DtypeVal dt) (ShapeVal sh))\<rparr>)"
  using assms by (simp add: Let_def update_kernel_def)

lemma map_output_first_visit:
  assumes "results s (Output i nm a) = None" and "shape_of a \<noteq> []"
    and "cg a s = (Inr ir, s1)"
  shows "map_output cg (Output i nm a) s =
    (Inr (ArrayResult nm (DtypeVal (dtype_of a)) (ShapeVal (shape_of a))),
     s1\<lparr>var_name_gen := snd (unique_names (var_name_gen s1)
            (map (\<lambda>d. nm @ ''_dim'' @ str_nat d) [0..<length (shape_of a)])),
        insn_id_gen := snd (unique_name (insn_id_gen s1) (nm @ ''_copy'')),
        kernel := (kernel s1)\<lparr>
          args := args (kernel s1) @
            [\<lparr>arg_name = nm, arg_shape = shape_of a, arg_dtype = dtype_of a,
              arg_order = ''C'', is_output_only = True\<rparr>],
          instructions := instructions (kernel s1) @
            [make_assignment
               [getitem (Variable nm) (map Variable (fst (unique_names (var_name_gen s1)
                  (map (\<lambda>d. nm @ ''_dim'' @ str_nat d) [0..<length (shape_of a)]))))]
               (to_loopy_expression ir (map Variable (fst (unique_names (var_name_gen s1)
                  (map (\<lambda>d. nm @ ''_dim'' @ str_nat d) [0..<length (shape_of a)]))))
                  (make_expression_context {} None))
               (fst (unique_name (insn_id_gen s1) (nm @ ''_copy'')))
               (set (fst (unique_names (var_name_gen s1)
                  (map (\<lambda>d. nm @ ''_dim'' @ str_nat d) [0..<length (shape_of a)]))))
               {}],
          domains := domains (kernel s1) @
            [domain_for_shape (fst (unique_names (var_name_gen s1)
                  (map (\<lambda>d. nm @ ''_dim'' @ str_nat d) [0..<length (shape_of a)])))
               (shape_of a)]\<rparr>,
        results := (results s1)(Output i nm a \<mapsto>
            ArrayResult nm (DtypeVal (dtype_of a)) (ShapeVal (shape_of a)))\<rparr>)"
  using assms
  by (simp add: Let_def update_kernel_def split: prod.splits)

lemma map_output_cases:
  assumes "map_output cg (Output i nm a) s = (r, s')"
  obtains (cached) c where "results s (Output i nm a) = Some c" "r = Inr c" "s' = s"
  | (scalar) "results s (Output i nm a) = None" "shape_of a = []" "r = Inl AssertionError" "s' = s"
  | (inner_failed) e where "results s (Output i nm a) = None" "shape_of a \<noteq> []"
      "cg a s = (Inl e, s')" "r = Inl e"
  | (lowered) ir s1 where "results s (Output i nm a) = None" "shape_of a \<noteq> []"
      "cg a s = (Inr ir, s1)"
proof (cases "results s (Output i nm a)")
  case (Some c)
  with assms show ?thesis by (intro cached[of c]) simp_all
next
  case None
  show ?thesis
  proof (cases "shape_of a = []")
    case True
    with None assms show ?thesis by (intro scalar) simp_all
  next
    case False
    obtain x s1 where c: "cg a s = (x, s1)" by (cases "cg a s")
    show ?thesis
    proof (cases x)
      case (Inl e)
      with None False c assms show ?thesis by (intro inner_failed[of e]) simp_all
    next
      case (Inr ir)
      with None False c show ?thesis by (intro lowered[of ir s1]) simp_all
    qed
  qed
qed

lemma map_index_lambda_cases:
  assumes "map_index_lambda em (IndexLambda i e sh dt b) s = (r, s')"
  obtains (cached) c where "results s (IndexLambda i e sh dt b) = Some c" "r = Inr c" "s' = s"
  | (body_failed) err where "results s (IndexLambda i e sh dt b) = None"
      "em e (make_expression_context {} None) (s\<lparr>namespace := b # namespace s\<rparr>) = (Inl err, s')"
      "r = Inl err"
  | (no_scope) le where "results s (IndexLambda i e sh dt b) = None"
      "em e (make_expression_context {} None) (s\<lparr>namespace := b # namespace s\<rparr>) = (Inr le, s')"
      "namespace s' = []" "r = Inl IndexError"
  | (lowered) le s1 m maps where "results s (IndexLambda i e sh dt b) = None"
      "em e (make_expression_context {} None) (s\<lparr>namespace := b # namespace s\<rparr>) = (Inr le, s1)"
      "namespace s1 = m # maps"
      "r = Inr (LoopyExpressionResult le (ShapeVal sh) (DtypeVal dt))"
      "s' = s1\<lparr>namespace := maps,
               results := (results s1)(IndexLambda i e sh dt b \<mapsto>
                 LoopyExpressionResult le (ShapeVal sh) (DtypeVal dt))\<rparr>"
proof (cases "results s (IndexLambda i e sh dt b)")
  case (Some c)
  with assms show ?thesis by (intro cached[of c]) simp_all
next
  case None
  obtain x s1 where c: "em e (make_expression_context {} None) (s\<lparr>namespace := b # namespace s\<rparr>) = (x, s1)"
    by (cases "em e (make_expression_context {} None) (s\<lparr>namespace := b # namespace s\<rparr>)")
  show ?thesis
  proof (cases x)
    case (Inl err)
    with None c assms show ?thesis by (intro body_failed[of err]) (simp_all add: Let_def)
  next
    case (Inr le)
    show ?thesis
    proof (cases "namespace s1")
      case Nil
      with None c Inr assms show ?thesis by (intro no_scope[of le]) (simp_all add: Let_def)
    next
      case (Cons m maps)
      with None c Inr assms show ?thesis by (intro lowered[of le s1 m maps]) (simp_all add: Let_def)
    qed
  qed
qed

lemma LoopyExpressionGenMapper_preserves:
  "(\<And>n s r s'. cg n s = (r, s') \<Longrightarrow> I s \<Longrightarrow> I s')
     \<Longrightarrow> LoopyExpressionGenMapper cg e ctx s = (r, s') \<Longrightarrow> I s \<Longrightarrow> I s'"
  "(\<And>n s r s'. cg n s = (r, s') \<Longrightarrow> I s \<Longrightarrow> I s')
     \<Longrightarrow> map_children cg es ctx s = (rs, s') \<Longrightarrow> I s \<Longrightarrow> I s'"
proof (induction cg e ctx s and cg es ctx s arbitrary: r s' and rs s'
    rule: LoopyExpressionGenMapper_map_children.induct)
  case (1 cg c ctx state)
  then show ?case by simp
next
  case (2 cg v ctx state)
  from "2.prems"(2,3) "2.prems"(1) show ?case
    by (auto split: option.splits sum.splits prod.splits)
next
  case (3 cg aggregate index ctx state)
  from "3.prems"(2,3) "3.prems"(1) show ?case
    by (auto split: option.splits sum.splits prod.splits ScalarExpression.splits)
next
  case (4 cg children ctx state)
  from "4.prems"(2,3) "4.IH"[OF "4.prems"(1)] show ?case
    by (auto split: sum.splits prod.splits)
next
  case (5 cg children ctx state)
  from "5.prems"(2,3) "5.IH"[OF "5.prems"(1)] show ?case
    by (auto split: sum.splits prod.splits)
next
  case (6 cg numerator denominator ctx state)
  obtain x s1 where a: "LoopyExpressionGenMapper cg numerator ctx state = (x, s1)"
    by (cases "LoopyExpressionGenMapper cg numerator ctx state")
  from "6.IH"(1)[OF "6.prems"(1) a "6.prems"(3)] have i1: "I s1" .
  show ?case
  proof (cases x)
    case (Inl err)
    with a "6.prems"(2) i1 show ?thesis by simp
  next
    case (Inr n')
    obtain y s2 where b: "LoopyExpressionGenMapper cg denominator ctx s1 = (y, s2)"
      by (cases "LoopyExpressionGenMapper cg denominator ctx s1")
    from "6.IH"(2)[OF a[symmetric] Inr "6.prems"(1) b i1] have "I s2" .
    with a b Inr "6.prems"(2) show ?thesis by (auto split: sum.splits)
  qed
next
  case (7 cg ctx state)
  then show ?case by simp
next
  case (8 cg c cs ctx state)
  obtain x s1 where a: "LoopyExpressionGenMapper cg c ctx state = (x, s1)"
    by (cases "LoopyExpressionGenMapper cg c ctx state")
  from "8.IH"(1)[OF "8.prems"(1) a "8.prems"(3)] have i1: "I s1" .
  show ?case
  proof (cases x)
    case (Inl err)
    with a "8.prems"(2) i1 show ?thesis by simp
  next
    case (Inr c')
    obtain y s2 where b: "map_children cg cs ctx s1 = (y, s2)"
      by (cases "map_children cg cs ctx s1")
    from "8.IH"(2)[OF a[symmetric] Inr "8.prems"(1) b i1] have "I s2" .
    with a b Inr "8.prems"(2) show ?thesis by (auto split: sum.splits)
  qed
qed

subsection \<open>What the walker preserves\<close>

lemma LoopyExpressionGenMapper_namespace:
  "(\<And>n s r s'. cg n s = (Inr r, s') \<Longrightarrow> namespace s' = namespace s)
     \<Longrightarrow> LoopyExpressionGenMapper cg e ctx s = (Inr r, s') \<Longrightarrow> namespace s' = namespace s"
  "(\<And>n s r s'. cg n s = (Inr r, s') \<Longrightarrow> namespace s' = namespace s)
     \<Longrightarrow> map_children cg es ctx s = (Inr rs, s') \<Longrightarrow> namespace s' = namespace s"
proof (induction cg e ctx s and cg es ctx s arbitrary: r s' and rs s'
    rule: LoopyExpressionGenMapper_map_children.induct)
  case (1 cg c ctx state)
  then show ?case by simp
next
  case (2 cg v ctx state)
  from "2.prems"(2) "2.prems"(1) show ?case
    by (auto split: option.splits sum.splits prod.splits)
next
  case (3 cg aggregate index ctx state)
  from "3.prems"(2) "3.prems"(1) show ?case
    by (auto split: option.splits sum.splits prod.splits ScalarExpression.splits)
next
  case (4 cg children ctx state)
  from "4.prems"(2) "4.IH"[OF "4.prems"(1)] show ?case
    by (auto split: sum.splits prod.splits)
next
  case (5 cg children ctx state)
  from "5.prems"(2) "5.IH"[OF "5.prems"(1)] show ?case
    by (auto split: sum.splits prod.splits)
next
  case (6 cg numerator denominator ctx state)
  from "6.prems"(2) obtain n' s1 d' where
    a: "LoopyExpressionGenMapper cg numerator ctx state = (Inr n', s1)"
    and b: "LoopyExpressionGenMapper cg denominator ctx s1 = (Inr d', s')"
    by (auto split: sum.splits prod.splits)
  from "6.IH"(1)[OF "6.prems"(1) a] have n1: "namespace s1 = namespace state" .
  from "6.IH"(2)[OF a[symmetric] refl "6.prems"(1) b] have "namespace s' = namespace s1" .
  with n1 show ?case by simp
next
  case (7 cg ctx state)
  then show ?case by simp
next
  case (8 cg c cs ctx state)
  from "8.prems"(2) obtain c' s1 cs' where
    a: "LoopyExpressionGenMapper cg c ctx state = (Inr c', s1)"
    and b: "map_children cg cs ctx s1 = (Inr cs', s')"
    by (auto split: sum.splits prod.splits)
  from "8.IH"(1)[OF "8.prems"(1) a] have n1: "namespace s1 = namespace state" .
  from "8.IH"(2)[OF a[symmetric] refl "8.prems"(1) b] have "namespace s' = namespace s1" .
  with n1 show ?case by simp
qed

lemma CodeGenMapper_namespace:
  "CodeGenMapper depth node s = (Inr r, s') \<Longrightarrow> namespace s' = namespace s"
proof (induction depth arbitrary: node s r s')
  case 0
  then show ?case by simp
next
  case (Suc depth)
  show ?case
  proof (cases node)
    case (Placeholder i nm sh dt)
    with Suc.prems show ?thesis
      by (cases "results s (Placeholder i nm sh dt)") (auto simp: Let_def update_kernel_def)
  next
    case (Output i nm a)
    with Suc.prems have m: "map_output (CodeGenMapper depth) (Output i nm a) s = (Inr r, s')"
      by simp
    then show ?thesis
    proof (cases rule: map_output_cases)
      case (lowered ir s1)
      from Suc.IH[OF lowered(3)] have "namespace s1 = namespace s" .
      with m map_output_first_visit[where cg = "CodeGenMapper depth", OF lowered] show ?thesis by auto
    qed simp_all
  next
    case (IndexLambda i e sh dt b)
    with Suc.prems have m: "map_index_lambda (LoopyExpressionGenMapper (CodeGenMapper depth))
        (IndexLambda i e sh dt b) s = (Inr r, s')"
      by simp
    then show ?thesis
    proof (cases rule: map_index_lambda_cases)
      case (lowered le s1 m maps)
      from LoopyExpressionGenMapper_namespace(1)[OF Suc.IH lowered(2)]
      have "namespace s1 = b # namespace s" by simp
      with lowered show ?thesis by simp
    qed simp_all
  next
    case (DataWrapper i nm sh dt)
    with Suc.prems show ?thesis by simp
  qed
qed


subsection \<open>Substitution of the reserved index names\<close>

lemma foldl_upd_conv: "foldl (\<lambda>m (k, v). m(k \<mapsto> v)) m ps = m ++ map_of (rev ps)"
  by (induction ps arbitrary: m) (auto simp: map_add_def fun_eq_iff split: option.splits)

lemma map_of_rev_distinct: "distinct (map fst ps) \<Longrightarrow> map_of (rev ps) = map_of ps"
  by (simp add: distinct_map map_of_inject_set)

lemma dict_distinct: "distinct (map fst ps) \<Longrightarrow> dict ps = map_of ps"
  by (simp add: dict_def foldl_upd_conv map_of_rev_distinct)

lemma distinct_dim_names: "distinct (map dim_name [0..<n])"
  by (simp add: distinct_map inj_on_def dim_name_inj)

lemma dim_of_name_Some: "dim_of_name n v = Some d \<longleftrightarrow> d < n \<and> dim_name d = v"
proof
  assume "dim_of_name n v = Some d"
  then show "d < n \<and> dim_name d = v"
    by (auto simp: dim_of_name_def find_Some_iff)
next
  assume a: "d < n \<and> dim_name d = v"
  then obtain d' where f: "dim_of_name n v = Some d'"
    by (cases "dim_of_name n v") (auto simp: dim_of_name_def find_None_iff)
  then have "d' < n \<and> dim_name d' = v"
    by (auto simp: dim_of_name_def find_Some_iff)
  with a have "d' = d" by (auto dest: dim_name_inj)
  with f show "dim_of_name n v = Some d" by simp
qed

lemma dim_of_name_None: "dim_of_name n v = None \<longleftrightarrow> v \<notin> set (map dim_name [0..<n])"
  by (auto simp: dim_of_name_def find_None_iff)

lemma dict_zip_dim_names:
  assumes "length indices = n"
  shows "dict (zip (map dim_name [0..<n]) indices) v
           = map_option (\<lambda>d. indices ! d) (dim_of_name n v)"
proof -
  let ?ks = "map dim_name [0..<n]"
  have len: "length ?ks = length indices" using assms by simp
  then have "map fst (zip ?ks indices) = ?ks" by (simp only: map_fst_zip)
  then have d: "dict (zip ?ks indices) = map_of (zip ?ks indices)"
    using distinct_dim_names[of n] by (simp only: dict_distinct)
  show ?thesis
  proof (cases "dim_of_name n v")
    case None
    then have "v \<notin> set ?ks" using dim_of_name_None[of n v] by blast
    with len have "map_of (zip ?ks indices) v = None"
      using map_of_zip_is_None[of ?ks indices v] by blast
    with d None show ?thesis by simp
  next
    case (Some k)
    then have k: "k < n" "dim_name k = v" by (simp_all add: dim_of_name_Some)
    then have "?ks ! k = v" by simp
    moreover have "map_of (zip ?ks indices) (?ks ! k) = Some (indices ! k)"
      using len distinct_dim_names[of n] k(1) assms by (intro map_of_zip_nth) simp_all
    ultimately show ?thesis using d Some by simp
  qed
qed

lemma substitute_dim_names:
  assumes "length indices = n"
  shows "substitute e (dict (zip (map dim_name [0..<n]) indices)) = substitute_indices indices e"
  using assms
  by (induction e) (auto simp: dict_zip_dim_names split: option.splits)

subsection \<open>Cache hits\<close>

lemma LoopyExpressionGenMapper_all_cached:
  "(\<And>v node. chain_lookup (namespace s) v = Some node \<Longrightarrow> \<exists>r. cg node s = (Inr r, s))
     \<Longrightarrow> snd (LoopyExpressionGenMapper cg e ctx s) = s"
  "(\<And>v node. chain_lookup (namespace s) v = Some node \<Longrightarrow> \<exists>r. cg node s = (Inr r, s))
     \<Longrightarrow> snd (map_children cg es ctx s) = s"
proof (induction cg e ctx s and cg es ctx s
    rule: LoopyExpressionGenMapper_map_children.induct)
  case (1 cg c ctx state)
  then show ?case by simp
next
  case (2 cg v ctx state)
  show ?case
  proof (cases "chain_lookup (namespace state) v")
    case None
    then show ?thesis by simp
  next
    case (Some node)
    from "2.prems"[OF Some] obtain r where "cg node state = (Inr r, state)" by blast
    with Some show ?thesis by simp
  qed
next
  case (3 cg aggregate index ctx state)
  show ?case
  proof (cases aggregate)
    case (Variable v)
    show ?thesis
    proof (cases "chain_lookup (namespace state) v")
      case None
      with Variable show ?thesis by simp
    next
      case (Some node)
      from "3.prems"[OF Some] obtain r where "cg node state = (Inr r, state)" by blast
      with Some Variable show ?thesis by simp
    qed
  qed simp_all
next
  case (4 cg children ctx state)
  from "4.IH"[OF "4.prems"] show ?case
    by (auto split: sum.splits prod.splits)
next
  case (5 cg children ctx state)
  from "5.IH"[OF "5.prems"] show ?case
    by (auto split: sum.splits prod.splits)
next
  case (6 cg numerator denominator ctx state)
  from "6.IH"(1)[OF "6.prems"] have a: "snd (LoopyExpressionGenMapper cg numerator ctx state) = state" .
  show ?case
  proof (cases "LoopyExpressionGenMapper cg numerator ctx state")
    case (Pair x s1)
    with a have s1: "s1 = state" by simp
    show ?thesis
    proof (cases x)
      case (Inl err)
      with Pair s1 show ?thesis by simp
    next
      case (Inr n')
      from "6.IH"(2)[OF Pair[symmetric] Inr] "6.prems" s1
      have "snd (LoopyExpressionGenMapper cg denominator ctx state) = state" by simp
      with Pair Inr s1 show ?thesis by (auto split: sum.splits prod.splits)
    qed
  qed
next
  case (7 cg ctx state)
  then show ?case by simp
next
  case (8 cg c cs ctx state)
  from "8.IH"(1)[OF "8.prems"] have a: "snd (LoopyExpressionGenMapper cg c ctx state) = state" .
  show ?case
  proof (cases "LoopyExpressionGenMapper cg c ctx state")
    case (Pair x s1)
    with a have s1: "s1 = state" by simp
    show ?thesis
    proof (cases x)
      case (Inl err)
      with Pair s1 show ?thesis by simp
    next
      case (Inr c')
      from "8.IH"(2)[OF Pair[symmetric] Inr] "8.prems" s1
      have "snd (map_children cg cs ctx state) = state" by simp
      with Pair Inr s1 show ?thesis by (auto split: sum.splits prod.splits)
    qed
  qed
qed

lemma cached_node_hit:
  "cache_ok state \<Longrightarrow> results state node = Some r
     \<Longrightarrow> CodeGenMapper (Suc depth) node state = (Inr r, state)"
  by (cases node) (auto simp: cache_ok_def)


subsection \<open>Instructions without dependencies\<close>

lemma no_dependencies_initial: "no_dependencies (kernel (initial_state ns))"
  by (simp add: no_dependencies_def initial_state_def make_kernel_def)

lemma CodeGenMapper_no_dependencies:
  "CodeGenMapper depth node s = (r, s') \<Longrightarrow> no_dependencies (kernel s)
     \<Longrightarrow> no_dependencies (kernel s')"
proof (induction depth arbitrary: node s r s')
  case 0
  then show ?case by simp
next
  case (Suc depth)
  let ?I = "\<lambda>s. no_dependencies (kernel s)"
  show ?case
  proof (cases node)
    case (Placeholder i nm sh dt)
    with Suc.prems show ?thesis
      by (cases "results s (Placeholder i nm sh dt)")
        (auto simp: Let_def update_kernel_def no_dependencies_def)
  next
    case (Output i nm a)
    with Suc.prems have m: "map_output (CodeGenMapper depth) (Output i nm a) s = (r, s')"
      by simp
    then show ?thesis
    proof (cases rule: map_output_cases)
      case (cached c)
      with Suc.prems show ?thesis by simp
    next
      case scalar
      with Suc.prems show ?thesis by simp
    next
      case (inner_failed e)
      from Suc.IH[OF inner_failed(3) Suc.prems(2)] show ?thesis .
    next
      case (lowered ir s1)
      from Suc.IH[OF lowered(3) Suc.prems(2)] have "no_dependencies (kernel s1)" .
      with m map_output_first_visit[where cg = "CodeGenMapper depth", OF lowered]
      show ?thesis
        by (auto simp: no_dependencies_def make_assignment_def)
    qed
  next
    case (IndexLambda i e sh dt b)
    with Suc.prems have m: "map_index_lambda (LoopyExpressionGenMapper (CodeGenMapper depth))
        (IndexLambda i e sh dt b) s = (r, s')"
      by simp
    have push: "?I (s\<lparr>namespace := b # namespace s\<rparr>)"
      using Suc.prems(2) by simp
    from m show ?thesis
    proof (cases rule: map_index_lambda_cases)
      case (cached c)
      with Suc.prems show ?thesis by simp
    next
      case (body_failed err)
      from LoopyExpressionGenMapper_preserves(1)[of "CodeGenMapper depth" ?I,
          OF Suc.IH body_failed(2) push]
      show ?thesis .
    next
      case (no_scope le)
      from LoopyExpressionGenMapper_preserves(1)[of "CodeGenMapper depth" ?I,
          OF Suc.IH no_scope(2) push]
      show ?thesis .
    next
      case (lowered le s1 m maps)
      from LoopyExpressionGenMapper_preserves(1)[of "CodeGenMapper depth" ?I,
          OF Suc.IH lowered(2) push]
      have "?I s1" .
      with lowered(5) show ?thesis by simp
    qed
  next
    case (DataWrapper i nm sh dt)
    with Suc.prems show ?thesis by simp
  qed
qed

lemma lower_all_no_dependencies:
  "lower_all depth items s = (r, s') \<Longrightarrow> no_dependencies (kernel s)
     \<Longrightarrow> no_dependencies (kernel s')"
proof (induction items arbitrary: s)
  case Nil
  then show ?case by simp
next
  case (Cons item items)
  obtain nm val where item: "item = (nm, val)" by (cases item)
  obtain x s1 where c: "CodeGenMapper depth val s = (x, s1)"
    by (cases "CodeGenMapper depth val s")
  from CodeGenMapper_no_dependencies[OF c Cons.prems(2)] have i1: "no_dependencies (kernel s1)" .
  show ?case
  proof (cases x)
    case (Inl e)
    with Cons.prems(1) item c i1 show ?thesis by simp
  next
    case (Inr g)
    with Cons.prems(1) item c have "lower_all depth items s1 = (r, s')" by simp
    from Cons.IH[OF this i1] show ?thesis .
  qed
qed

subsection \<open>Buffers of outputs, and the promotion of a single node\<close>

lemma outputs_have_buffersD:
  "outputs_have_buffers s \<Longrightarrow> results s (Output i nm a) = Some r
     \<Longrightarrow> \<exists>arg \<in> set (args (kernel s)). arg_name arg = nm \<and> is_output_only arg"
  unfolding outputs_have_buffers_def by blast

lemma outputs_have_buffers_step:
  assumes "outputs_have_buffers s"
    and "set (args (kernel s)) \<subseteq> set (args (kernel s'))"
    and "\<And>i nm a r. results s' (Output i nm a) = Some r
           \<Longrightarrow> (\<exists>r0. results s (Output i nm a) = Some r0)
               \<or> (\<exists>arg \<in> set (args (kernel s')). arg_name arg = nm \<and> is_output_only arg)"
  shows "outputs_have_buffers s'"
  unfolding outputs_have_buffers_def
proof (intro allI impI)
  fix i nm a r
  assume "results s' (Output i nm a) = Some r"
  from assms(3)[OF this] show "\<exists>arg \<in> set (args (kernel s')). arg_name arg = nm \<and> is_output_only arg"
  proof
    assume "\<exists>r0. results s (Output i nm a) = Some r0"
    then obtain r0 where "results s (Output i nm a) = Some r0" ..
    from outputs_have_buffersD[OF assms(1) this] assms(2) show ?thesis by blast
  qed
qed

lemma CodeGenMapper_outputs_have_buffers:
  "CodeGenMapper depth node s = (r, s') \<Longrightarrow> outputs_have_buffers s
     \<Longrightarrow> outputs_have_buffers s'"
proof (induction depth arbitrary: node s r s')
  case 0
  then show ?case by simp
next
  case (Suc depth)
  show ?case
  proof (cases node)
    case (Placeholder i nm sh dt)
    show ?thesis
    proof (cases "results s (Placeholder i nm sh dt)")
      case None
      from Suc.prems(1) Placeholder map_placeholder_first_visit[OF None]
      have s': "s' = s\<lparr>kernel := (kernel s)\<lparr>args := args (kernel s) @
            [\<lparr>arg_name = nm, arg_shape = sh, arg_dtype = dt, arg_order = ''C'',
              is_output_only = False\<rparr>]\<rparr>,
          results := (results s)(Placeholder i nm sh dt \<mapsto>
            ArrayResult nm (DtypeVal dt) (ShapeVal sh))\<rparr>"
        by simp
      show ?thesis
        by (rule outputs_have_buffers_step[OF Suc.prems(2)]) (auto simp: s')
    next
      case (Some c)
      with Suc.prems Placeholder show ?thesis by simp
    qed
  next
    case (Output i nm a)
    with Suc.prems have m: "map_output (CodeGenMapper depth) (Output i nm a) s = (r, s')"
      by simp
    then show ?thesis
    proof (cases rule: map_output_cases)
      case (cached c)
      with Suc.prems show ?thesis by simp
    next
      case scalar
      with Suc.prems show ?thesis by simp
    next
      case (inner_failed e)
      from Suc.IH[OF inner_failed(3) Suc.prems(2)] show ?thesis .
    next
      case (lowered ir s1)
      from Suc.IH[OF lowered(3) Suc.prems(2)] have i1: "outputs_have_buffers s1" .
      from m map_output_first_visit[where cg = "CodeGenMapper depth", OF lowered]
      have a: "args (kernel s') = args (kernel s1) @
            [\<lparr>arg_name = nm, arg_shape = shape_of a, arg_dtype = dtype_of a,
              arg_order = ''C'', is_output_only = True\<rparr>]"
        and c: "results s' = (results s1)(Output i nm a \<mapsto>
            ArrayResult nm (DtypeVal (dtype_of a)) (ShapeVal (shape_of a)))"
        by auto
      show ?thesis
        by (rule outputs_have_buffers_step[OF i1]) (auto simp: a c split: if_splits)
    qed
  next
    case (IndexLambda i e sh dt b)
    with Suc.prems have m: "map_index_lambda (LoopyExpressionGenMapper (CodeGenMapper depth))
        (IndexLambda i e sh dt b) s = (r, s')"
      by simp
    have push: "outputs_have_buffers (s\<lparr>namespace := b # namespace s\<rparr>)"
      using Suc.prems(2) by (simp add: outputs_have_buffers_def)
    from m show ?thesis
    proof (cases rule: map_index_lambda_cases)
      case (cached c)
      with Suc.prems show ?thesis by simp
    next
      case (body_failed err)
      from LoopyExpressionGenMapper_preserves(1)[of "CodeGenMapper depth" outputs_have_buffers,
          OF Suc.IH body_failed(2) push]
      show ?thesis .
    next
      case (no_scope le)
      from LoopyExpressionGenMapper_preserves(1)[of "CodeGenMapper depth" outputs_have_buffers,
          OF Suc.IH no_scope(2) push]
      show ?thesis .
    next
      case (lowered le s1 m maps)
      from LoopyExpressionGenMapper_preserves(1)[of "CodeGenMapper depth" outputs_have_buffers,
          OF Suc.IH lowered(2) push]
      have i1: "outputs_have_buffers s1" .
      show ?thesis
        by (rule outputs_have_buffers_step[OF i1]) (auto simp: lowered(5) split: if_splits)
    qed
  next
    case (DataWrapper i nm sh dt)
    with Suc.prems show ?thesis by simp
  qed
qed

lemma lower_all_outputs_have_buffers:
  "lower_all depth items s = (r, s') \<Longrightarrow> outputs_have_buffers s
     \<Longrightarrow> outputs_have_buffers s'"
proof (induction items arbitrary: s)
  case Nil
  then show ?case by simp
next
  case (Cons item items)
  obtain nm val where item: "item = (nm, val)" by (cases item)
  obtain x s1 where c: "CodeGenMapper depth val s = (x, s1)"
    by (cases "CodeGenMapper depth val s")
  from CodeGenMapper_outputs_have_buffers[OF c Cons.prems(2)]
  have i1: "outputs_have_buffers s1" .
  show ?case
  proof (cases x)
    case (Inl e)
    with Cons.prems(1) item c i1 show ?thesis by simp
  next
    case (Inr g)
    with Cons.prems(1) item c have "lower_all depth items s1 = (r, s')" by simp
    from Cons.IH[OF this i1] show ?thesis .
  qed
qed

lemma lower_all_snoc:
  "lower_all depth (items @ [(nm, val)]) s = (Inr u, s')
     \<Longrightarrow> \<exists>s1 r. lower_all depth items s = (Inr (), s1) \<and> CodeGenMapper depth val s1 = (Inr r, s')"
  by (induction items arbitrary: s) (auto split: sum.splits prod.splits)

lemma lowered_output_has_buffer:
  assumes "CodeGenMapper depth (Output i nm a) s = (Inr r, s')" and "outputs_have_buffers s"
  shows "\<exists>arg \<in> set (args (kernel s')). arg_name arg = nm \<and> is_output_only arg"
proof -
  from assms(1) obtain d where depth: "depth = Suc d" by (cases depth) auto
  with assms(1) have m: "map_output (CodeGenMapper d) (Output i nm a) s = (Inr r, s')" by simp
  then show ?thesis
  proof (cases rule: map_output_cases)
    case (cached c)
    with outputs_have_buffersD[OF assms(2), of i nm a c] show ?thesis by simp
  next
    case (lowered ir s1)
    with m map_output_first_visit[where cg = "CodeGenMapper d", OF lowered]
    show ?thesis by auto
  qed simp_all
qed

lemma promote_single:
  "promote_named_arrays_to_outputs next_id ns [(nm, a)]
     = ns @ [(fst (unique_name (map fst ns) nm),
              Output next_id (fst (unique_name (map fst ns) nm)) a)]"
  by (simp add: promote_named_arrays_to_outputs_def Let_def split: prod.splits)

subsection \<open>Cache entries persist\<close>




subsection \<open>Lowerings and the cache\<close>









subsection \<open>Self-contained nodes are lowered once\<close>







subsection \<open>The first free name\<close>

lemma first_unused_least:
  "\<exists>k\<ge>t. first_unused p ex t = p @ ''_'' @ str_nat k
          \<and> p @ ''_'' @ str_nat k \<notin> set ex
          \<and> (\<forall>j. t \<le> j \<and> j < k \<longrightarrow> p @ ''_'' @ str_nat j \<in> set ex)"
proof (induction p ex t rule: first_unused.induct)
  case (1 prefix existing_names try_num)
  show ?case
  proof (cases "prefix @ ''_'' @ str_nat try_num \<in> set existing_names")
    case True
    from "1.IH"[OF refl True] obtain k where
      k: "Suc try_num \<le> k"
        "first_unused prefix existing_names (Suc try_num) = prefix @ ''_'' @ str_nat k"
        "prefix @ ''_'' @ str_nat k \<notin> set existing_names"
        "\<forall>j. Suc try_num \<le> j \<and> j < k \<longrightarrow> prefix @ ''_'' @ str_nat j \<in> set existing_names"
      by blast
    have f: "first_unused prefix existing_names try_num = prefix @ ''_'' @ str_nat k"
      using True k(2) by (subst first_unused.simps) (simp add: Let_def)
    have "\<forall>j. try_num \<le> j \<and> j < k \<longrightarrow> prefix @ ''_'' @ str_nat j \<in> set existing_names"
    proof (intro allI impI)
      fix j assume j: "try_num \<le> j \<and> j < k"
      show "prefix @ ''_'' @ str_nat j \<in> set existing_names"
      proof (cases "j = try_num")
        case True
        with \<open>prefix @ ''_'' @ str_nat try_num \<in> set existing_names\<close> show ?thesis by simp
      next
        case False
        with j have "Suc try_num \<le> j \<and> j < k" by simp
        with k(4) show ?thesis by blast
      qed
    qed
    with k(1,3) f show ?thesis
      by (intro exI[of _ k]) simp
  next
    case False
    then have "first_unused prefix existing_names try_num = prefix @ ''_'' @ str_nat try_num"
      by (subst first_unused.simps) (simp add: Let_def)
    with False show ?thesis
      by (intro exI[of _ try_num]) auto
  qed
qed

lemma unique_name_first_free:
  "(based_on \<notin> set g \<longrightarrow> fst (unique_name g based_on) = based_on)
   \<and> (based_on \<in> set g \<longrightarrow>
        (\<exists>k. fst (unique_name g based_on) = based_on @ ''_'' @ str_nat k
             \<and> (\<forall>j<k. based_on @ ''_'' @ str_nat j \<in> set g)))"
proof (intro conjI impI)
  assume "based_on \<notin> set g"
  then show "fst (unique_name g based_on) = based_on" by (simp add: unique_name_def)
next
  assume b: "based_on \<in> set g"
  from first_unused_least[of 0 based_on g] obtain k where
    "first_unused based_on g 0 = based_on @ ''_'' @ str_nat k"
    "\<forall>j. 0 \<le> j \<and> j < k \<longrightarrow> based_on @ ''_'' @ str_nat j \<in> set g"
    by blast
  with b show "\<exists>k. fst (unique_name g based_on) = based_on @ ''_'' @ str_nat k
             \<and> (\<forall>j<k. based_on @ ''_'' @ str_nat j \<in> set g)"
    by (intro exI[of _ k]) (simp add: unique_name_def Let_def)
qed

subsection \<open>Plain nodes add no output-only buffer\<close>

lemma chain_lookup_plain:
  "chain_plain nm chain \<Longrightarrow> v \<noteq> nm \<Longrightarrow> chain_lookup chain v = Some k \<Longrightarrow> plain_for nm k"
proof (induction chain)
  case Nil
  then show ?case by simp
next
  case (Cons m chain)
  show ?case
  proof (cases "map_of m v")
    case None
    with Cons.prems(3) have "chain_lookup chain v = Some k" by simp
    moreover from Cons.prems(1) have "chain_plain nm chain" by (simp add: chain_plain_def)
    ultimately show ?thesis using Cons.IH Cons.prems(2) by blast
  next
    case (Some x)
    with Cons.prems(3) have "x = k" by simp
    with Some have "(v, k) \<in> set m" by (auto dest: map_of_SomeD)
    with Cons.prems(1,2) show ?thesis by (auto simp: chain_plain_def)
  qed
qed

lemma rewriter_plain:
  "(\<And>k s r s'. cg k s = (r, s') \<Longrightarrow> plain_for nm k \<Longrightarrow> plain_state nm outs s
       \<Longrightarrow> plain_state nm outs s')
     \<Longrightarrow> nm \<notin> set (looked_up e)
     \<Longrightarrow> LoopyExpressionGenMapper cg e ctx s = (r, s') \<Longrightarrow> plain_state nm outs s
     \<Longrightarrow> plain_state nm outs s'"
  "(\<And>k s r s'. cg k s = (r, s') \<Longrightarrow> plain_for nm k \<Longrightarrow> plain_state nm outs s
       \<Longrightarrow> plain_state nm outs s')
     \<Longrightarrow> nm \<notin> set (concat (map looked_up es))
     \<Longrightarrow> map_children cg es ctx s = (rs, s') \<Longrightarrow> plain_state nm outs s
     \<Longrightarrow> plain_state nm outs s'"
proof (induction cg e ctx s and cg es ctx s arbitrary: r s' and rs s'
    rule: LoopyExpressionGenMapper_map_children.induct)
  case (1 cg c ctx state)
  then show ?case by simp
next
  case (2 cg v ctx state)
  show ?case
  proof (cases "chain_lookup (namespace state) v")
    case None
    with "2.prems"(3,4) show ?thesis by simp
  next
    case (Some k)
    from "2.prems"(2) have "v \<noteq> nm" by auto
    with "2.prems"(4) Some have pk: "plain_for nm k"
      by (auto simp: plain_state_def dest: chain_lookup_plain)
    obtain y s1 where c: "cg k state = (y, s1)" by (cases "cg k state")
    from "2.prems"(1)[OF c pk "2.prems"(4)] have "plain_state nm outs s1" .
    with "2.prems"(3) Some c show ?thesis by (auto split: sum.splits)
  qed
next
  case (3 cg aggregate index ctx state)
  show ?case
  proof (cases aggregate)
    case (Variable v)
    show ?thesis
    proof (cases "chain_lookup (namespace state) v")
      case None
      with "3.prems"(3,4) Variable show ?thesis by simp
    next
      case (Some k)
      from "3.prems"(2) Variable have "v \<noteq> nm" by auto
      with "3.prems"(4) Some have pk: "plain_for nm k"
        by (auto simp: plain_state_def dest: chain_lookup_plain)
      obtain y s1 where c: "cg k state = (y, s1)" by (cases "cg k state")
      from "3.prems"(1)[OF c pk "3.prems"(4)] have "plain_state nm outs s1" .
      with "3.prems"(3) Some Variable c show ?thesis by (auto split: sum.splits)
    qed
  qed (use "3.prems"(3,4) in auto)
next
  case (4 cg children ctx state)
  obtain y s1 where c: "map_children cg children ctx state = (y, s1)"
    by (cases "map_children cg children ctx state")
  from "4.prems"(2) have "nm \<notin> set (concat (map looked_up children))" by simp
  from "4.IH"[OF "4.prems"(1) this c "4.prems"(4)] have "plain_state nm outs s1" .
  with "4.prems"(3) c show ?case by (auto split: sum.splits)
next
  case (5 cg children ctx state)
  obtain y s1 where c: "map_children cg children ctx state = (y, s1)"
    by (cases "map_children cg children ctx state")
  from "5.prems"(2) have "nm \<notin> set (concat (map looked_up children))" by simp
  from "5.IH"[OF "5.prems"(1) this c "5.prems"(4)] have "plain_state nm outs s1" .
  with "5.prems"(3) c show ?case by (auto split: sum.splits)
next
  case (6 cg numerator denominator ctx state)
  obtain y s1 where a: "LoopyExpressionGenMapper cg numerator ctx state = (y, s1)"
    by (cases "LoopyExpressionGenMapper cg numerator ctx state")
  from "6.prems"(2) have n1: "nm \<notin> set (looked_up numerator)"
    and n2: "nm \<notin> set (looked_up denominator)" by simp_all
  from "6.IH"(1)[OF "6.prems"(1) n1 a "6.prems"(4)] have i1: "plain_state nm outs s1" .
  show ?case
  proof (cases y)
    case (Inl err)
    with a "6.prems"(3) i1 show ?thesis by simp
  next
    case (Inr n')
    obtain z s2 where b: "LoopyExpressionGenMapper cg denominator ctx s1 = (z, s2)"
      by (cases "LoopyExpressionGenMapper cg denominator ctx s1")
    from "6.IH"(2)[OF a[symmetric] Inr "6.prems"(1) n2 b i1] have "plain_state nm outs s2" .
    with a b Inr "6.prems"(3) show ?thesis by (auto split: sum.splits)
  qed
next
  case (7 cg ctx state)
  then show ?case by simp
next
  case (8 cg c cs ctx state)
  obtain y s1 where a: "LoopyExpressionGenMapper cg c ctx state = (y, s1)"
    by (cases "LoopyExpressionGenMapper cg c ctx state")
  from "8.prems"(2) have n1: "nm \<notin> set (looked_up c)"
    and n2: "nm \<notin> set (concat (map looked_up cs))" by simp_all
  from "8.IH"(1)[OF "8.prems"(1) n1 a "8.prems"(4)] have i1: "plain_state nm outs s1" .
  show ?case
  proof (cases y)
    case (Inl err)
    with a "8.prems"(3) i1 show ?thesis by simp
  next
    case (Inr c')
    obtain z s2 where b: "map_children cg cs ctx s1 = (z, s2)"
      by (cases "map_children cg cs ctx s1")
    from "8.IH"(2)[OF a[symmetric] Inr "8.prems"(1) n2 b i1] have "plain_state nm outs s2" .
    with a b Inr "8.prems"(3) show ?thesis by (auto split: sum.splits)
  qed
qed

lemma CodeGenMapper_plain:
  "CodeGenMapper depth k s = (r, s') \<Longrightarrow> plain_for nm k \<Longrightarrow> plain_state nm outs s
     \<Longrightarrow> plain_state nm outs s'"
proof (induction depth arbitrary: k s r s')
  case 0
  then show ?case by simp
next
  case (Suc depth)
  show ?case
  proof (cases k)
    case (Placeholder i n sh dt)
    with Suc.prems show ?thesis
      by (cases "results s (Placeholder i n sh dt)")
        (auto simp: Let_def update_kernel_def plain_state_def)
  next
    case (Output i n a)
    with Suc.prems(2) show ?thesis by simp
  next
    case (IndexLambda i e sh dt b)
    with Suc.prems have m: "map_index_lambda (LoopyExpressionGenMapper (CodeGenMapper depth))
        (IndexLambda i e sh dt b) s = (r, s')"
      by simp
    from Suc.prems(2) IndexLambda have ne: "nm \<notin> set (looked_up e)"
      and pb: "list_all (plain_for nm) (map snd b)" by simp_all
    from pb have "\<forall>(k, x) \<in> set b. plain_for nm x"
      by (auto simp: list_all_iff)
    with Suc.prems(3) have push: "plain_state nm outs (s\<lparr>namespace := b # namespace s\<rparr>)"
      by (auto simp: plain_state_def chain_plain_def)
    have rw: "plain_state nm outs t'"
      if "LoopyExpressionGenMapper (CodeGenMapper depth) e (make_expression_context {} None)
            (s\<lparr>namespace := b # namespace s\<rparr>) = (y, t')" for y t'
    proof (rule rewriter_plain(1)[where cg = "CodeGenMapper depth"])
      show "\<And>k s r s'. CodeGenMapper depth k s = (r, s') \<Longrightarrow> plain_for nm k
              \<Longrightarrow> plain_state nm outs s \<Longrightarrow> plain_state nm outs s'"
        by (rule Suc.IH)
      show "nm \<notin> set (looked_up e)" by (rule ne)
      show "LoopyExpressionGenMapper (CodeGenMapper depth) e (make_expression_context {} None)
            (s\<lparr>namespace := b # namespace s\<rparr>) = (y, t')" by (rule that)
      show "plain_state nm outs (s\<lparr>namespace := b # namespace s\<rparr>)" by (rule push)
    qed
    from m show ?thesis
    proof (cases rule: map_index_lambda_cases)
      case (cached c)
      with Suc.prems show ?thesis by simp
    next
      case (body_failed err)
      from rw[OF body_failed(2)] show ?thesis .
    next
      case (no_scope le)
      from rw[OF no_scope(2)] show ?thesis .
    next
      case (lowered le s1 m maps)
      from rw[OF lowered(2)] have "plain_state nm outs s1" .
      with lowered(3,5) show ?thesis
        by (auto simp: plain_state_def chain_plain_def)
    qed
  next
    case (DataWrapper i n sh dt)
    with Suc.prems show ?thesis by simp
  qed
qed

lemma lower_all_plain:
  "lower_all depth items s = (r, s') \<Longrightarrow> list_all (plain_for nm) (map snd items)
     \<Longrightarrow> plain_state nm outs s \<Longrightarrow> plain_state nm outs s'"
proof (induction items arbitrary: s)
  case Nil
  then show ?case by simp
next
  case (Cons item items)
  obtain n val where item: "item = (n, val)" by (cases item)
  obtain y s1 where c: "CodeGenMapper depth val s = (y, s1)"
    by (cases "CodeGenMapper depth val s")
  from Cons.prems(2) item have pv: "plain_for nm val"
    and pr: "list_all (plain_for nm) (map snd items)" by simp_all
  from CodeGenMapper_plain[OF c pv Cons.prems(3)] have i1: "plain_state nm outs s1" .
  show ?case
  proof (cases y)
    case (Inl e)
    with Cons.prems(1) item c i1 show ?thesis by simp
  next
    case (Inr g)
    with Cons.prems(1) item c have "lower_all depth items s1 = (r, s')" by simp
    from Cons.IH[OF this pr i1] show ?thesis .
  qed
qed

section \<open>Rendering of generated results\<close>

text \<open>
  C7. An \<open>ArrayResult\<close> rendered at the empty index tuple is the bare variable of its
  buffer name; rendered at a non-empty index tuple it is the subscript of that variable by
  exactly the given indices.
\<close>

theorem ArrayResult_to_loopy_expression:
  "to_loopy_expression (ArrayResult nm sh dt) [] ctx = Variable nm \<and>
   to_loopy_expression (ArrayResult nm sh dt) (i # rest) ctx
     = Subscript (Variable nm) (i # rest)"
  by (simp add: getitem_def)

text \<open>
  C4. An expression result of \<open>n\<close> dimensions rendered at an index tuple of length \<open>n\<close>
  is its stored expression with the reserved name of each dimension \<open>d\<close> replaced,
  structurally, by the index at position \<open>d\<close>; in particular the variable \<open>_d\<close> itself
  renders as that index. Rendering returns a new expression; the result, and the expression
  stored in it, are values that nothing modifies.
\<close>

theorem LoopyExpressionResult_to_loopy_expression:
  assumes "ndim (LoopyExpressionResult e sh dt) = length indices"
  shows "to_loopy_expression (LoopyExpressionResult e sh dt) indices ctx
           = substitute_indices indices e
         \<and> (\<forall>d < length indices.
              to_loopy_expression (LoopyExpressionResult (Variable (dim_name d)) sh dt) indices ctx
                = indices ! d)"
proof -
  from assms have n: "length indices = pylen sh" by (simp add: ndim_def)
  have a: "to_loopy_expression (LoopyExpressionResult e sh dt) indices ctx
             = substitute_indices indices e"
    using substitute_dim_names[OF n] by (simp add: ndim_def)
  have b: "to_loopy_expression (LoopyExpressionResult (Variable (dim_name d)) sh dt) indices ctx
             = indices ! d" if "d < length indices" for d
  proof -
    from that have "dim_of_name (length indices) (dim_name d) = Some d"
      by (simp add: dim_of_name_Some)
    then show ?thesis
      using substitute_dim_names[OF n, of "Variable (dim_name d)"] by (simp add: ndim_def)
  qed
  from a b show ?thesis by simp
qed

theorem LoopyExpressionResult_to_loopy_expression_witness:
  "ndim (LoopyExpressionResult
           (Sum [Subscript (Variable ''a'') [Variable ''_0'', Variable ''_1''], Variable ''_1''])
           (ShapeVal [Constant 3, Constant 4]) (DtypeVal Float64))
     = length [Variable ''i'', Constant 7]
   \<and> to_loopy_expression
        (LoopyExpressionResult
           (Sum [Subscript (Variable ''a'') [Variable ''_0'', Variable ''_1''], Variable ''_1''])
           (ShapeVal [Constant 3, Constant 4]) (DtypeVal Float64))
        [Variable ''i'', Constant 7] (make_expression_context {} None)
     = Sum [Subscript (Variable ''a'') [Variable ''i'', Constant 7], Constant 7]"
proof -
  let ?e = "Sum [Subscript (Variable ''a'') [Variable ''_0'', Variable ''_1''], Variable ''_1'']"
  let ?r = "LoopyExpressionResult ?e (ShapeVal [Constant 3, Constant 4]) (DtypeVal Float64)"
  have h: "ndim ?r = length [Variable ''i'', Constant 7]" by (simp add: ndim_def)
  have v: "substitute_indices [Variable ''i'', Constant 7] ?e
             = Sum [Subscript (Variable ''a'') [Variable ''i'', Constant 7], Constant 7]"
    by code_simp
  from h v LoopyExpressionResult_to_loopy_expression[OF h, of "make_expression_context {} None"]
  show ?thesis by simp
qed

section \<open>Placeholders and outputs: what the cached result carries\<close>

text \<open>
  C1. On its first visit a placeholder named \<open>x\<close> of shape \<open>(10,)\<close> and dtype float64
  adds the input argument \<open>x\<close> with that shape and dtype and no instruction, as claimed;
  but the cached \<open>ArrayResult\<close> is built with the dtype in the position of the shape and
  the shape in the position of the dtype, so its \<open>shape\<close> is not the node's shape and
  its \<open>dtype\<close> is not the node's dtype. The result cached for an output over that
  placeholder is built the same way.
\<close>

theorem map_placeholder_swaps_shape_and_dtype:
  "fst (CodeGenMapper 1 (Placeholder 0 ''x'' [Constant 10] Float64) (initial_state []))
     = Inr (ArrayResult ''x'' (DtypeVal Float64) (ShapeVal [Constant 10]))
   \<and> results (snd (CodeGenMapper 1 (Placeholder 0 ''x'' [Constant 10] Float64) (initial_state [])))
        (Placeholder 0 ''x'' [Constant 10] Float64)
     = Some (ArrayResult ''x'' (DtypeVal Float64) (ShapeVal [Constant 10]))
   \<and> shape (ArrayResult ''x'' (DtypeVal Float64) (ShapeVal [Constant 10])) = DtypeVal Float64
   \<and> dtype (ArrayResult ''x'' (DtypeVal Float64) (ShapeVal [Constant 10])) = ShapeVal [Constant 10]
   \<and> args (kernel (snd (CodeGenMapper 1 (Placeholder 0 ''x'' [Constant 10] Float64)
          (initial_state []))))
     = [\<lparr>arg_name = ''x'', arg_shape = [Constant 10], arg_dtype = Float64, arg_order = ''C'',
         is_output_only = False\<rparr>]
   \<and> instructions (kernel (snd (CodeGenMapper 1 (Placeholder 0 ''x'' [Constant 10] Float64)
          (initial_state [])))) = []
   \<and> results (snd (CodeGenMapper 2 (Output 1 ''out'' (Placeholder 0 ''x'' [Constant 10] Float64))
          (initial_state [])))
        (Output 1 ''out'' (Placeholder 0 ''x'' [Constant 10] Float64))
     = Some (ArrayResult ''out'' (DtypeVal Float64) (ShapeVal [Constant 10]))"
  by code_simp

section \<open>The local scope of an index lambda\<close>

text \<open>
  C2. An index lambda whose body names \<open>y\<close>, bound in no scope, fails with a
  \<^verbatim>\<open>KeyError\<close>. The namespace chain had one scope before the visit; after the failed
  visit it has two: the local bindings are still the innermost scope.
\<close>

theorem chain_namespaces_not_popped_on_error:
  "CodeGenMapper 1
     (IndexLambda 0 (Variable ''y'') [] Float64 [(''a'', Placeholder 1 ''a'' [] Float64)])
     (initial_state [])
    = (Inl (KeyError ''y''),
       (initial_state [])\<lparr>namespace := [[(''a'', Placeholder 1 ''a'' [] Float64)], []]\<rparr>)
  \<and> namespace (initial_state []) = [[]]"
  by (simp add: initial_state_def make_expression_context_def)

section \<open>Memoization\<close>



section \<open>Outputs\<close>

text \<open>
  C6. An output without dimensions fails with the assertion before anything is added:
  the state after the call is the state before it. (In a state that satisfies
  \<open>cache_ok\<close> such an output is not in the cache, so the call reaches the assertion.)
\<close>

theorem scalar_output_fails_fast:
  assumes "cache_ok state" and "shape_of a = []"
  shows "CodeGenMapper (Suc depth) (Output i nm a) state = (Inl AssertionError, state)"
proof -
  from assms have "results state (Output i nm a) = None"
    by (cases "results state (Output i nm a)") (auto simp: cache_ok_def)
  with assms(2) show ?thesis by simp
qed

theorem scalar_output_fails_fast_witness:
  "cache_ok (initial_state []) \<and> shape_of (Placeholder 0 ''x'' [] Float64) = []
   \<and> CodeGenMapper (Suc 0) (Output 1 ''out'' (Placeholder 0 ''x'' [] Float64)) (initial_state [])
       = (Inl AssertionError, initial_state [])"
proof -
  have ok: "cache_ok (initial_state [])" by (simp add: cache_ok_def initial_state_def)
  have sh: "shape_of (Placeholder 0 ''x'' [] Float64) = []" by simp
  from ok sh scalar_output_fails_fast[OF ok sh, of 0 1 "''out''"] show ?thesis by blast
qed

text \<open>
  C5. The first visit of an output of shape \<open>(d0, ..., dn)\<close> whose inner node lowers
  successfully succeeds, and: the loop variable names it generates are as many as the
  shape has extents, pairwise distinct and not among the names the generator had given out
  before; the kernel gets one more domain, over exactly these loop variables with exactly
  the extents of the shape; it gets the output-only buffer named after the output and one
  more instruction, which assigns to that buffer subscripted by these loop variables in
  order and runs within exactly this set of loop variables.
\<close>

theorem map_output_domain_matches_shape:
  assumes "results state (Output i nm a) = None" and "shape_of a \<noteq> []"
    and "CodeGenMapper depth a state = (Inr inner_result, state1)"
  shows "let inames = fst (unique_names (var_name_gen state1)
                            (map (\<lambda>d. nm @ ''_dim'' @ str_nat d) [0..<length (shape_of a)]))
         in \<exists>r state' insn.
              CodeGenMapper (Suc depth) (Output i nm a) state = (Inr r, state')
              \<and> length inames = length (shape_of (Output i nm a))
              \<and> distinct inames
              \<and> set inames \<inter> set (var_name_gen state1) = {}
              \<and> domains (kernel state') = domains (kernel state1) @
                    [\<lparr>dim_names = inames, extents = shape_of (Output i nm a)\<rparr>]
              \<and> args (kernel state') = args (kernel state1) @
                    [\<lparr>arg_name = nm, arg_shape = shape_of (Output i nm a),
                      arg_dtype = dtype_of (Output i nm a), arg_order = ''C'',
                      is_output_only = True\<rparr>]
              \<and> instructions (kernel state') = instructions (kernel state1) @ [insn]
              \<and> assignees insn = [Subscript (Variable nm) (map Variable inames)]
              \<and> within_inames insn = set inames"
proof -
  let ?bases = "map (\<lambda>d. nm @ ''_dim'' @ str_nat d) [0..<length (shape_of a)]"
  let ?inames = "fst (unique_names (var_name_gen state1) ?bases)"
  have len: "length ?inames = length (shape_of a)"
    by (simp add: unique_names_length)
  with assms(2) have ne: "?inames \<noteq> []" by auto
  have fresh: "distinct ?inames" "set ?inames \<inter> set (var_name_gen state1) = {}"
    using unique_names_fresh[of "var_name_gen state1" ?bases] by simp_all
  have run: "CodeGenMapper (Suc depth) (Output i nm a) state
               = map_output (CodeGenMapper depth) (Output i nm a) state"
    by simp
  note fv = map_output_first_visit[where cg = "CodeGenMapper depth", OF assms]
  show ?thesis
    unfolding Let_def run fv
    using len fresh ne
    by (simp add: make_assignment_def getitem_def domain_for_shape_def)
qed

theorem map_output_domain_matches_shape_witness:
  "results (initial_state []) (Output 1 ''out'' (Placeholder 0 ''x'' [Constant 10, Constant 20] Float64)) = None
   \<and> shape_of (Placeholder 0 ''x'' [Constant 10, Constant 20] Float64) \<noteq> []
   \<and> CodeGenMapper 1 (Placeholder 0 ''x'' [Constant 10, Constant 20] Float64) (initial_state [])
       = (Inr (ArrayResult ''x'' (DtypeVal Float64) (ShapeVal [Constant 10, Constant 20])),
          snd (CodeGenMapper 1 (Placeholder 0 ''x'' [Constant 10, Constant 20] Float64)
                 (initial_state [])))
   \<and> (\<exists>r state' insn.
         CodeGenMapper 2 (Output 1 ''out'' (Placeholder 0 ''x'' [Constant 10, Constant 20] Float64))
           (initial_state []) = (Inr r, state')
         \<and> domains (kernel state') =
             [\<lparr>dim_names = [], extents = []\<rparr>,
              \<lparr>dim_names = [''out_dim0'', ''out_dim1''], extents = [Constant 10, Constant 20]\<rparr>]
         \<and> instructions (kernel state') = [insn]
         \<and> assignees insn
             = [Subscript (Variable ''out'') [Variable ''out_dim0'', Variable ''out_dim1'']]
         \<and> within_inames insn = {''out_dim0'', ''out_dim1''})"
proof -
  let ?p = "Placeholder 0 ''x'' [Constant 10, Constant 20] Float64"
  let ?s1 = "snd (CodeGenMapper 1 ?p (initial_state []))"
  have h1: "results (initial_state []) (Output 1 ''out'' ?p) = None"
    by (simp add: initial_state_def)
  have h2: "shape_of ?p \<noteq> []" by simp
  have h3: "CodeGenMapper 1 ?p (initial_state [])
              = (Inr (ArrayResult ''x'' (DtypeVal Float64) (ShapeVal [Constant 10, Constant 20])), ?s1)"
    by (simp add: initial_state_def Let_def update_kernel_def)
  have g: "var_name_gen ?s1 = []" "domains (kernel ?s1) = [\<lparr>dim_names = [], extents = []\<rparr>]"
    "instructions (kernel ?s1) = []"
    by (simp_all add: initial_state_def Let_def update_kernel_def make_kernel_def
        domain_for_shape_def)
  have n: "fst (unique_names [] (map (\<lambda>d. ''out'' @ ''_dim'' @ str_nat d)
              [0..<length (shape_of ?p)])) = [''out_dim0'', ''out_dim1'']"
    by code_simp
  from map_output_domain_matches_shape[OF h1 h2 h3, unfolded Let_def g n]
  have "\<exists>r state' insn.
         CodeGenMapper 2 (Output 1 ''out'' ?p) (initial_state []) = (Inr r, state')
         \<and> domains (kernel state') =
             [\<lparr>dim_names = [], extents = []\<rparr>,
              \<lparr>dim_names = [''out_dim0'', ''out_dim1''], extents = [Constant 10, Constant 20]\<rparr>]
         \<and> instructions (kernel state') = [insn]
         \<and> assignees insn
             = [Subscript (Variable ''out'') [Variable ''out_dim0'', Variable ''out_dim1'']]
         \<and> within_inames insn = {''out_dim0'', ''out_dim1''}"
    by (auto simp: numeral_2_eq_2 simp del: CodeGenMapper.simps)
  with h1 h2 h3 show ?thesis by blast
qed

section \<open>Index lambdas\<close>

text \<open>
  C8. On its first visit an index lambda whose body is rewritten successfully caches the
  expression result that wraps the rewritten body, with the node's shape and dtype. The
  final state is the state the rewriter returned, with the scope popped and the cache entry
  added: the kernel is the one the rewriter left, and the rewriter started from the kernel
  of the call. When every node in scope is already in the cache, so that the rewriter
  lowers nothing new, the kernel after the call is the kernel before it.
\<close>

theorem map_index_lambda_emits_nothing:
  assumes "results state (IndexLambda i e sh dt b) = None"
    and "LoopyExpressionGenMapper (CodeGenMapper depth) e (make_expression_context {} None)
           (state\<lparr>namespace := b # namespace state\<rparr>) = (Inr loopy_expr, state1)"
  shows "CodeGenMapper (Suc depth) (IndexLambda i e sh dt b) state
           = (Inr (LoopyExpressionResult loopy_expr (ShapeVal sh) (DtypeVal dt)),
              state1\<lparr>namespace := namespace state,
                     results := (results state1)(IndexLambda i e sh dt b \<mapsto>
                        LoopyExpressionResult loopy_expr (ShapeVal sh) (DtypeVal dt))\<rparr>)
         \<and> kernel (snd (CodeGenMapper (Suc depth) (IndexLambda i e sh dt b) state)) = kernel state1
         \<and> (0 < depth \<and> cache_ok state
              \<and> (\<forall>v node. chain_lookup (b # namespace state) v = Some node
                     \<longrightarrow> results state node \<noteq> None)
            \<longrightarrow> kernel (snd (CodeGenMapper (Suc depth) (IndexLambda i e sh dt b) state))
                  = kernel state)"
proof -
  let ?pushed = "state\<lparr>namespace := b # namespace state\<rparr>"
  from LoopyExpressionGenMapper_namespace(1)[OF CodeGenMapper_namespace assms(2)]
  have ns: "namespace state1 = b # namespace state" by simp
  with assms have run: "CodeGenMapper (Suc depth) (IndexLambda i e sh dt b) state
           = (Inr (LoopyExpressionResult loopy_expr (ShapeVal sh) (DtypeVal dt)),
              state1\<lparr>namespace := namespace state,
                     results := (results state1)(IndexLambda i e sh dt b \<mapsto>
                        LoopyExpressionResult loopy_expr (ShapeVal sh) (DtypeVal dt))\<rparr>)"
    by (simp add: Let_def)
  have "kernel state1 = kernel state"
    if d: "0 < depth" and ok: "cache_ok state"
      and all: "\<forall>v node. chain_lookup (b # namespace state) v = Some node
                  \<longrightarrow> results state node \<noteq> None"
  proof -
    from d obtain d' where depth: "depth = Suc d'" by (cases depth) auto
    have okp: "cache_ok ?pushed" using ok by (simp add: cache_ok_def)
    have hit: "\<exists>r. CodeGenMapper depth node ?pushed = (Inr r, ?pushed)"
      if "chain_lookup (namespace ?pushed) v = Some node" for v node
    proof -
      from that all obtain r where "results ?pushed node = Some r" by auto
      from cached_node_hit[OF okp this, of d'] depth show ?thesis by blast
    qed
    from LoopyExpressionGenMapper_all_cached(1)[of ?pushed "CodeGenMapper depth" e
        "make_expression_context {} None", OF hit] assms(2)
    have "state1 = ?pushed" by simp
    then show ?thesis by simp
  qed
  with run show ?thesis by simp
qed

theorem map_index_lambda_emits_nothing_witness:
  "results
     \<lparr>namespace = [[]],
      kernel = \<lparr>args = [\<lparr>arg_name = ''a'', arg_shape = [Constant 5], arg_dtype = Float64,
                          arg_order = ''C'', is_output_only = False\<rparr>],
                 instructions = [], domains = [\<lparr>dim_names = [], extents = []\<rparr>]\<rparr>,
      results = [Placeholder 1 ''a'' [Constant 5] Float64
                   \<mapsto> ArrayResult ''a'' (DtypeVal Float64) (ShapeVal [Constant 5])],
      var_name_gen = [], insn_id_gen = []\<rparr>
     (IndexLambda 2 (Subscript (Variable ''a'') [Variable ''_0'']) [Constant 5] Float64
        [(''a'', Placeholder 1 ''a'' [Constant 5] Float64)]) = None
   \<and> fst (CodeGenMapper 2
        (IndexLambda 2 (Subscript (Variable ''a'') [Variable ''_0'']) [Constant 5] Float64
           [(''a'', Placeholder 1 ''a'' [Constant 5] Float64)])
        \<lparr>namespace = [[]],
         kernel = \<lparr>args = [\<lparr>arg_name = ''a'', arg_shape = [Constant 5], arg_dtype = Float64,
                             arg_order = ''C'', is_output_only = False\<rparr>],
                    instructions = [], domains = [\<lparr>dim_names = [], extents = []\<rparr>]\<rparr>,
         results = [Placeholder 1 ''a'' [Constant 5] Float64
                      \<mapsto> ArrayResult ''a'' (DtypeVal Float64) (ShapeVal [Constant 5])],
         var_name_gen = [], insn_id_gen = []\<rparr>)
      = Inr (LoopyExpressionResult (Subscript (Variable ''a'') [Variable ''_0''])
               (ShapeVal [Constant 5]) (DtypeVal Float64))
   \<and> kernel (snd (CodeGenMapper 2
        (IndexLambda 2 (Subscript (Variable ''a'') [Variable ''_0'']) [Constant 5] Float64
           [(''a'', Placeholder 1 ''a'' [Constant 5] Float64)])
        \<lparr>namespace = [[]],
         kernel = \<lparr>args = [\<lparr>arg_name = ''a'', arg_shape = [Constant 5], arg_dtype = Float64,
                             arg_order = ''C'', is_output_only = False\<rparr>],
                    instructions = [], domains = [\<lparr>dim_names = [], extents = []\<rparr>]\<rparr>,
         results = [Placeholder 1 ''a'' [Constant 5] Float64
                      \<mapsto> ArrayResult ''a'' (DtypeVal Float64) (ShapeVal [Constant 5])],
         var_name_gen = [], insn_id_gen = []\<rparr>))
      = \<lparr>args = [\<lparr>arg_name = ''a'', arg_shape = [Constant 5], arg_dtype = Float64,
                   arg_order = ''C'', is_output_only = False\<rparr>],
          instructions = [], domains = [\<lparr>dim_names = [], extents = []\<rparr>]\<rparr>"
proof -
  let ?pa = "Placeholder 1 ''a'' [Constant 5] Float64"
  let ?e = "Subscript (Variable ''a'') [Variable ''_0'']"
  let ?il = "IndexLambda 2 ?e [Constant 5] Float64 [(''a'', ?pa)]"
  let ?k = "\<lparr>args = [\<lparr>arg_name = ''a'', arg_shape = [Constant 5], arg_dtype = Float64,
                          arg_order = ''C'', is_output_only = False\<rparr>],
                 instructions = [], domains = [\<lparr>dim_names = [], extents = []\<rparr>]\<rparr>"
  let ?s = "\<lparr>namespace = [[]], kernel = ?k,
      results = [?pa \<mapsto> ArrayResult ''a'' (DtypeVal Float64) (ShapeVal [Constant 5])],
      var_name_gen = [], insn_id_gen = []\<rparr>"
  have h1: "results ?s ?il = None" by simp
  have h2: "LoopyExpressionGenMapper (CodeGenMapper 1) ?e (make_expression_context {} None)
              (?s\<lparr>namespace := [(''a'', ?pa)] # namespace ?s\<rparr>)
            = (Inr ?e, ?s\<lparr>namespace := [(''a'', ?pa)] # namespace ?s\<rparr>)"
    by (simp add: getitem_def)
  have d: "0 < (1::nat)" by simp
  have ok: "cache_ok ?s" by (simp add: cache_ok_def)
  have all: "\<forall>v node. chain_lookup ([(''a'', ?pa)] # namespace ?s) v = Some node
               \<longrightarrow> results ?s node \<noteq> None"
    by (simp split: if_splits)
  from map_index_lambda_emits_nothing[OF h1 h2] d ok all h1
  show ?thesis by (simp add: numeral_2_eq_2)
qed

section \<open>Dependencies of the emitted instructions\<close>

text \<open>
  C10. Every instruction of a program that \<open>generate_loopy\<close> returns has an empty
  dependency set. The context that \<open>map_output\<close> opens starts with the empty set, nothing
  that renders a result changes the context, and the instruction records the set of that
  context after the assertion that it is empty.
\<close>

theorem generated_instructions_have_no_dependencies:
  assumes "generate_loopy depth next_id input = Inr bound_program"
  shows "no_dependencies (program bound_program)
         \<and> depends_on (make_expression_context {} None) = {}"
proof -
  from assms obtain ns s' u where
    run: "lower_all depth ns (initial_state ns) = (Inr u, s')"
    and bp: "bound_program = \<lparr>program = kernel s', bound_arguments = []\<rparr>"
    by (auto simp: generate_loopy_def Let_def
        split: codegen_input.splits sum.splits prod.splits)
  from lower_all_no_dependencies[OF run no_dependencies_initial] bp
  show ?thesis by simp
qed

theorem generated_instructions_have_no_dependencies_witness:
  "generate_loopy 2 1 (InArray [(''x'', Placeholder 0 ''x'' [Constant 10] Float64)]
       (Placeholder 0 ''x'' [Constant 10] Float64))
     = Inr \<lparr>program =
          \<lparr>args = [\<lparr>arg_name = ''x'', arg_shape = [Constant 10], arg_dtype = Float64,
                     arg_order = ''C'', is_output_only = False\<rparr>,
                   \<lparr>arg_name = ''out'', arg_shape = [Constant 10], arg_dtype = Float64,
                     arg_order = ''C'', is_output_only = True\<rparr>],
            instructions =
              [\<lparr>assignees = [Subscript (Variable ''out'') [Variable ''out_dim0'']],
                expression = Subscript (Variable ''x'') [Variable ''out_dim0''],
                insn_id = ''out_copy'', within_inames = {''out_dim0''},
                insn_depends_on = {}\<rparr>],
            domains = [\<lparr>dim_names = [], extents = []\<rparr>,
                       \<lparr>dim_names = [''out_dim0''], extents = [Constant 10]\<rparr>]\<rparr>,
          bound_arguments = []\<rparr>
   \<and> no_dependencies
        \<lparr>args = [\<lparr>arg_name = ''x'', arg_shape = [Constant 10], arg_dtype = Float64,
                     arg_order = ''C'', is_output_only = False\<rparr>,
                   \<lparr>arg_name = ''out'', arg_shape = [Constant 10], arg_dtype = Float64,
                     arg_order = ''C'', is_output_only = True\<rparr>],
            instructions =
              [\<lparr>assignees = [Subscript (Variable ''out'') [Variable ''out_dim0'']],
                expression = Subscript (Variable ''x'') [Variable ''out_dim0''],
                insn_id = ''out_copy'', within_inames = {''out_dim0''},
                insn_depends_on = {}\<rparr>],
            domains = [\<lparr>dim_names = [], extents = []\<rparr>,
                       \<lparr>dim_names = [''out_dim0''], extents = [Constant 10]\<rparr>]\<rparr>"
proof -
  let ?bp = "\<lparr>program =
          \<lparr>args = [\<lparr>arg_name = ''x'', arg_shape = [Constant 10], arg_dtype = Float64,
                     arg_order = ''C'', is_output_only = False\<rparr>,
                   \<lparr>arg_name = ''out'', arg_shape = [Constant 10], arg_dtype = Float64,
                     arg_order = ''C'', is_output_only = True\<rparr>],
            instructions =
              [\<lparr>assignees = [Subscript (Variable ''out'') [Variable ''out_dim0'']],
                expression = Subscript (Variable ''x'') [Variable ''out_dim0''],
                insn_id = ''out_copy'', within_inames = {''out_dim0''},
                insn_depends_on = {}\<rparr>],
            domains = [\<lparr>dim_names = [], extents = []\<rparr>,
                       \<lparr>dim_names = [''out_dim0''], extents = [Constant 10]\<rparr>]\<rparr>,
          bound_arguments = []\<rparr>"
  have h: "generate_loopy 2 1 (InArray [(''x'', Placeholder 0 ''x'' [Constant 10] Float64)]
       (Placeholder 0 ''x'' [Constant 10] Float64)) = Inr ?bp"
    by code_simp
  from h generated_instructions_have_no_dependencies[OF h] show ?thesis by simp
qed

section \<open>A single node as input\<close>

text \<open>
  C9, as stated, fails. For a placeholder named \<open>out\<close> passed as the single node, the
  only output-only buffer of the produced program is named \<open>out_0\<close>: the name generator
  of the promotion is seeded with the names of the node's namespace, where \<open>out\<close> is
  taken. For a placeholder whose namespace holds an output \<open>res\<close>, the produced program
  has two output-only buffers, \<open>res\<close> and \<open>out\<close>: every output of the namespace is
  lowered. And for an index lambda \<open>q\<close> without bindings, in a namespace without
  outputs whose index lambdas resolve the name \<open>out\<close>, the produced program has two
  output-only buffers, both named \<open>out\<close>: the namespace binds \<open>q\<close> to an index
  lambda over \<open>out\<close> that binds \<open>q\<close> to a placeholder, so the lowering of the new
  output is entered a second time, through that name, before the first has reached the
  cache.
\<close>

theorem single_node_output_not_named_out:
  "map_sum id (\<lambda>bp. map arg_name (filter is_output_only (args (program bp))))
     (generate_loopy 2 1 (InArray [(''out'', Placeholder 0 ''out'' [Constant 10] Float64)]
        (Placeholder 0 ''out'' [Constant 10] Float64)))
     = Inr [''out_0'']
   \<and> [''out_0''] \<noteq> [''out'']
   \<and> map_sum id (\<lambda>bp. map arg_name (filter is_output_only (args (program bp))))
     (generate_loopy 2 2
        (InArray [(''x'', Placeholder 0 ''x'' [Constant 10] Float64),
                  (''res'', Output 1 ''res'' (Placeholder 0 ''x'' [Constant 10] Float64))]
           (Placeholder 0 ''x'' [Constant 10] Float64)))
     = Inr [''res'', ''out'']
   \<and> map_sum id (\<lambda>bp. map arg_name (filter is_output_only (args (program bp))))
     (generate_loopy 7 20
        (InArray [(''p'', Placeholder 0 ''p'' [Constant 4] Float64),
                  (''y'', IndexLambda 12 (Variable ''out'') [Constant 4] Float64 []),
                  (''q'', IndexLambda 11 (Variable ''out'') [Constant 4] Float64
                            [(''q'', Placeholder 0 ''p'' [Constant 4] Float64)])]
           (IndexLambda 10 (Variable ''q'') [Constant 4] Float64 [])))
     = Inr [''out'', ''out'']"
  by code_simp

text \<open>
  C9, amended. A single node is wrapped as the one-entry mapping from \<open>out\<close> to the node.
  The promotion appends one output over the node to the node's namespace, under the first
  of the names \<open>out\<close>, \<open>out_0\<close>, \<open>out_1\<close>, ... that the namespace does not bind:
  \<open>out\<close> itself when the namespace does not bind it, otherwise \<open>out_k\<close> with every
  \<open>out_j\<close>, \<open>j < k\<close>, bound. Every program produced for the node has an output-only
  buffer of that name. When neither the namespace nor the node contains an output or an
  expression that resolves that name, this buffer is the single output-only buffer of the
  program, and it has the node's shape and dtype.
\<close>

theorem single_node_output_name:
  assumes "generate_loopy depth next_id (InArray ns a) = Inr bound_program"
  shows "generate_loopy depth next_id (InArray ns a)
           = generate_loopy depth next_id (InDictOfNamedArrays ns [(''out'', a)])
         \<and> (let nm = fst (unique_name (map fst ns) ''out'')
            in promote_named_arrays_to_outputs next_id ns [(''out'', a)]
                 = ns @ [(nm, Output next_id nm a)]
               \<and> nm \<notin> set (map fst ns)
               \<and> (''out'' \<notin> set (map fst ns) \<longrightarrow> nm = ''out'')
               \<and> (''out'' \<in> set (map fst ns) \<longrightarrow>
                    (\<exists>k. nm = ''out'' @ ''_'' @ str_nat k
                         \<and> (\<forall>j<k. ''out'' @ ''_'' @ str_nat j \<in> set (map fst ns))))
               \<and> (\<exists>arg \<in> set (args (program bound_program)).
                     arg_name arg = nm \<and> is_output_only arg)
               \<and> (list_all (plain_for nm) (map snd ns) \<and> plain_for nm a \<longrightarrow>
                    filter is_output_only (args (program bound_program))
                      = [\<lparr>arg_name = nm, arg_shape = shape_of a, arg_dtype = dtype_of a,
                          arg_order = ''C'', is_output_only = True\<rparr>]))"
proof -
  let ?nm = "fst (unique_name (map fst ns) ''out'')"
  let ?o = "Output next_id ?nm a"
  let ?ns = "ns @ [(?nm, ?o)]"
  let ?arg = "\<lparr>arg_name = ?nm, arg_shape = shape_of a, arg_dtype = dtype_of a,
                arg_order = ''C'', is_output_only = True\<rparr>"
  have wrap: "generate_loopy depth next_id (InArray ns a)
           = generate_loopy depth next_id (InDictOfNamedArrays ns [(''out'', a)])"
    by (simp add: generate_loopy_def)
  have pr: "promote_named_arrays_to_outputs next_id ns [(''out'', a)] = ?ns"
    by (rule promote_single)
  from assms pr obtain u s' where
    run: "lower_all depth ?ns (initial_state ?ns) = (Inr u, s')"
    and bp: "bound_program = \<lparr>program = kernel s', bound_arguments = []\<rparr>"
    by (auto simp: generate_loopy_def Let_def split: sum.splits prod.splits)
  from lower_all_snoc[OF run] obtain s1 r where
    l1: "lower_all depth ns (initial_state ?ns) = (Inr (), s1)"
    and l2: "CodeGenMapper depth ?o s1 = (Inr r, s')"
    by blast
  have "outputs_have_buffers (initial_state ?ns)"
    by (simp add: outputs_have_buffers_def initial_state_def)
  from lower_all_outputs_have_buffers[OF l1 this] have ohb: "outputs_have_buffers s1" .
  from lowered_output_has_buffer[OF l2 this] bp
  have buf: "\<exists>arg \<in> set (args (program bound_program)).
               arg_name arg = ?nm \<and> is_output_only arg"
    by simp
  have fresh: "?nm \<notin> set (map fst ns)" by (rule unique_name_fresh)
  from unique_name_first_free[of "''out''" "map fst ns"]
  have same: "''out'' \<notin> set (map fst ns) \<longrightarrow> ?nm = ''out''"
    and first: "''out'' \<in> set (map fst ns) \<longrightarrow>
                    (\<exists>k. ?nm = ''out'' @ ''_'' @ str_nat k
                         \<and> (\<forall>j<k. ''out'' @ ''_'' @ str_nat j \<in> set (map fst ns)))"
    by blast+
  have single: "filter is_output_only (args (program bound_program)) = [?arg]"
    if pn: "list_all (plain_for ?nm) (map snd ns)" and pa: "plain_for ?nm a"
  proof -
    from pn have "\<forall>(k, x) \<in> set ns. plain_for ?nm x" by (auto simp: list_all_iff)
    then have "plain_state ?nm [] (initial_state ?ns)"
      by (auto simp: plain_state_def chain_plain_def initial_state_def make_kernel_def)
    from lower_all_plain[OF l1 pn this] have p1: "plain_state ?nm [] s1" .
    from l2 obtain d where depth: "depth = Suc d" by (cases depth) auto
    with l2 have m: "map_output (CodeGenMapper d) ?o s1 = (Inr r, s')" by simp
    then have "filter is_output_only (args (kernel s')) = [?arg]"
    proof (cases rule: map_output_cases)
      case (cached c)
      from outputs_have_buffersD[OF ohb cached(1)] p1 show ?thesis
        by (auto simp: plain_state_def filter_empty_conv)
    next
      case (lowered ir s2)
      from CodeGenMapper_plain[OF lowered(3) pa p1]
      have "filter is_output_only (args (kernel s2)) = []" by (simp add: plain_state_def)
      with m map_output_first_visit[where cg = "CodeGenMapper d", OF lowered]
      show ?thesis by auto
    qed simp_all
    with bp show ?thesis by simp
  qed
  from wrap pr fresh same first buf single show ?thesis
    unfolding Let_def by blast
qed

theorem single_node_output_name_witness:
  "generate_loopy 3 5
     (InArray [(''a'', Placeholder 1 ''a'' [Constant 5] Float64),
               (''b'', Placeholder 2 ''b'' [Constant 5] Float64)]
        (IndexLambda 3
           (Sum [Subscript (Variable ''a'') [Variable ''_0''],
                 Subscript (Variable ''b'') [Variable ''_0'']])
           [Constant 5] Float64
           [(''a'', Placeholder 1 ''a'' [Constant 5] Float64),
            (''b'', Placeholder 2 ''b'' [Constant 5] Float64)]))
     = Inr \<lparr>program =
          \<lparr>args = [\<lparr>arg_name = ''a'', arg_shape = [Constant 5], arg_dtype = Float64,
                     arg_order = ''C'', is_output_only = False\<rparr>,
                   \<lparr>arg_name = ''b'', arg_shape = [Constant 5], arg_dtype = Float64,
                     arg_order = ''C'', is_output_only = False\<rparr>,
                   \<lparr>arg_name = ''out'', arg_shape = [Constant 5], arg_dtype = Float64,
                     arg_order = ''C'', is_output_only = True\<rparr>],
            instructions =
              [\<lparr>assignees = [Subscript (Variable ''out'') [Variable ''out_dim0'']],
                expression = Sum [Subscript (Variable ''a'') [Variable ''out_dim0''],
                                  Subscript (Variable ''b'') [Variable ''out_dim0'']],
                insn_id = ''out_copy'', within_inames = {''out_dim0''},
                insn_depends_on = {}\<rparr>],
            domains = [\<lparr>dim_names = [], extents = []\<rparr>,
                       \<lparr>dim_names = [''out_dim0''], extents = [Constant 5]\<rparr>]\<rparr>,
          bound_arguments = []\<rparr>
   \<and> ''out'' \<notin> set (map fst [(''a'', Placeholder 1 ''a'' [Constant 5] Float64),
                               (''b'', Placeholder 2 ''b'' [Constant 5] Float64)])
   \<and> fst (unique_name (map fst [(''a'', Placeholder 1 ''a'' [Constant 5] Float64),
                                 (''b'', Placeholder 2 ''b'' [Constant 5] Float64)]) ''out'')
       = ''out''
   \<and> generate_loopy 2 5
     (InArray [(''out'', Placeholder 0 ''out'' [Constant 10] Float64),
               (''out_0'', Placeholder 1 ''out_0'' [Constant 3] Float64)]
        (Placeholder 0 ''out'' [Constant 10] Float64))
     = Inr \<lparr>program =
          \<lparr>args = [\<lparr>arg_name = ''out'', arg_shape = [Constant 10], arg_dtype = Float64,
                     arg_order = ''C'', is_output_only = False\<rparr>,
                   \<lparr>arg_name = ''out_0'', arg_shape = [Constant 3], arg_dtype = Float64,
                     arg_order = ''C'', is_output_only = False\<rparr>,
                   \<lparr>arg_name = ''out_1'', arg_shape = [Constant 10], arg_dtype = Float64,
                     arg_order = ''C'', is_output_only = True\<rparr>],
            instructions =
              [\<lparr>assignees = [Subscript (Variable ''out_1'') [Variable ''out_1_dim0'']],
                expression = Subscript (Variable ''out'') [Variable ''out_1_dim0''],
                insn_id = ''out_1_copy'', within_inames = {''out_1_dim0''},
                insn_depends_on = {}\<rparr>],
            domains = [\<lparr>dim_names = [], extents = []\<rparr>,
                       \<lparr>dim_names = [''out_1_dim0''], extents = [Constant 10]\<rparr>]\<rparr>,
          bound_arguments = []\<rparr>
   \<and> ''out'' \<in> set (map fst [(''out'', Placeholder 0 ''out'' [Constant 10] Float64),
                               (''out_0'', Placeholder 1 ''out_0'' [Constant 3] Float64)])
   \<and> fst (unique_name (map fst [(''out'', Placeholder 0 ''out'' [Constant 10] Float64),
                                 (''out_0'', Placeholder 1 ''out_0'' [Constant 3] Float64)])
            ''out'')
       = ''out'' @ ''_'' @ str_nat 1
   \<and> promote_named_arrays_to_outputs 5
        [(''out'', Placeholder 0 ''out'' [Constant 10] Float64),
         (''out_0'', Placeholder 1 ''out_0'' [Constant 3] Float64)]
        [(''out'', Placeholder 0 ''out'' [Constant 10] Float64)]
       = [(''out'', Placeholder 0 ''out'' [Constant 10] Float64),
          (''out_0'', Placeholder 1 ''out_0'' [Constant 3] Float64),
          (''out_1'', Output 5 ''out_1'' (Placeholder 0 ''out'' [Constant 10] Float64))]
   \<and> (\<exists>k. fst (unique_name
                  (map fst [(''out'', Placeholder 0 ''out'' [Constant 10] Float64),
                            (''out_0'', Placeholder 1 ''out_0'' [Constant 3] Float64)])
                  ''out'')
              = ''out'' @ ''_'' @ str_nat k
            \<and> (\<forall>j<k. ''out'' @ ''_'' @ str_nat j
                   \<in> set (map fst
                         [(''out'', Placeholder 0 ''out'' [Constant 10] Float64),
                          (''out_0'', Placeholder 1 ''out_0'' [Constant 3] Float64)])))
   \<and> list_all (plain_for ''out'')
        (map snd [(''a'', Placeholder 1 ''a'' [Constant 5] Float64),
                  (''b'', Placeholder 2 ''b'' [Constant 5] Float64)])
   \<and> plain_for ''out''
        (IndexLambda 3
           (Sum [Subscript (Variable ''a'') [Variable ''_0''],
                 Subscript (Variable ''b'') [Variable ''_0'']])
           [Constant 5] Float64
           [(''a'', Placeholder 1 ''a'' [Constant 5] Float64),
            (''b'', Placeholder 2 ''b'' [Constant 5] Float64)])
   \<and> map_sum id (\<lambda>bp. filter is_output_only (args (program bp)))
        (generate_loopy 3 5
           (InArray [(''a'', Placeholder 1 ''a'' [Constant 5] Float64),
                     (''b'', Placeholder 2 ''b'' [Constant 5] Float64)]
              (IndexLambda 3
                 (Sum [Subscript (Variable ''a'') [Variable ''_0''],
                       Subscript (Variable ''b'') [Variable ''_0'']])
                 [Constant 5] Float64
                 [(''a'', Placeholder 1 ''a'' [Constant 5] Float64),
                  (''b'', Placeholder 2 ''b'' [Constant 5] Float64)])))
       = Inr [\<lparr>arg_name = ''out'', arg_shape = [Constant 5], arg_dtype = Float64,
                arg_order = ''C'', is_output_only = True\<rparr>]
   \<and> map_sum id (\<lambda>bp. filter is_output_only (args (program bp)))
        (generate_loopy 2 5
           (InArray [(''out'', Placeholder 0 ''out'' [Constant 10] Float64),
                     (''out_0'', Placeholder 1 ''out_0'' [Constant 3] Float64)]
              (Placeholder 0 ''out'' [Constant 10] Float64)))
       = Inr [\<lparr>arg_name = ''out_1'', arg_shape = [Constant 10], arg_dtype = Float64,
                arg_order = ''C'', is_output_only = True\<rparr>]"
proof -
  let ?pa = "Placeholder 1 ''a'' [Constant 5] Float64"
  let ?pb = "Placeholder 2 ''b'' [Constant 5] Float64"
  let ?ns1 = "[(''a'', ?pa), (''b'', ?pb)]"
  let ?il = "IndexLambda 3
           (Sum [Subscript (Variable ''a'') [Variable ''_0''],
                 Subscript (Variable ''b'') [Variable ''_0'']])
           [Constant 5] Float64 ?ns1"
  let ?bp1 = "\<lparr>program =
          \<lparr>args = [\<lparr>arg_name = ''a'', arg_shape = [Constant 5], arg_dtype = Float64,
                     arg_order = ''C'', is_output_only = False\<rparr>,
                   \<lparr>arg_name = ''b'', arg_shape = [Constant 5], arg_dtype = Float64,
                     arg_order = ''C'', is_output_only = False\<rparr>,
                   \<lparr>arg_name = ''out'', arg_shape = [Constant 5], arg_dtype = Float64,
                     arg_order = ''C'', is_output_only = True\<rparr>],
            instructions =
              [\<lparr>assignees = [Subscript (Variable ''out'') [Variable ''out_dim0'']],
                expression = Sum [Subscript (Variable ''a'') [Variable ''out_dim0''],
                                  Subscript (Variable ''b'') [Variable ''out_dim0'']],
                insn_id = ''out_copy'', within_inames = {''out_dim0''},
                insn_depends_on = {}\<rparr>],
            domains = [\<lparr>dim_names = [], extents = []\<rparr>,
                       \<lparr>dim_names = [''out_dim0''], extents = [Constant 5]\<rparr>]\<rparr>,
          bound_arguments = []\<rparr>"
  let ?po = "Placeholder 0 ''out'' [Constant 10] Float64"
  let ?ns2 = "[(''out'', ?po), (''out_0'', Placeholder 1 ''out_0'' [Constant 3] Float64)]"
  let ?bp2 = "\<lparr>program =
          \<lparr>args = [\<lparr>arg_name = ''out'', arg_shape = [Constant 10], arg_dtype = Float64,
                     arg_order = ''C'', is_output_only = False\<rparr>,
                   \<lparr>arg_name = ''out_0'', arg_shape = [Constant 3], arg_dtype = Float64,
                     arg_order = ''C'', is_output_only = False\<rparr>,
                   \<lparr>arg_name = ''out_1'', arg_shape = [Constant 10], arg_dtype = Float64,
                     arg_order = ''C'', is_output_only = True\<rparr>],
            instructions =
              [\<lparr>assignees = [Subscript (Variable ''out_1'') [Variable ''out_1_dim0'']],
                expression = Subscript (Variable ''out'') [Variable ''out_1_dim0''],
                insn_id = ''out_1_copy'', within_inames = {''out_1_dim0''},
                insn_depends_on = {}\<rparr>],
            domains = [\<lparr>dim_names = [], extents = []\<rparr>,
                       \<lparr>dim_names = [''out_1_dim0''], extents = [Constant 10]\<rparr>]\<rparr>,
          bound_arguments = []\<rparr>"
  have h1: "generate_loopy 3 5 (InArray ?ns1 ?il) = Inr ?bp1" by code_simp
  have f1: "''out'' \<notin> set (map fst ?ns1)" by simp
  have p1: "list_all (plain_for ''out'') (map snd ?ns1)" "plain_for ''out'' ?il"
    by simp_all
  note inst1 = single_node_output_name[OF h1, unfolded Let_def]
  from inst1 f1
  have n1: "fst (unique_name (map fst ?ns1) ''out'') = ''out''"
    by blast
  from inst1 p1 have "filter is_output_only (args (program ?bp1))
      = [\<lparr>arg_name = fst (unique_name (map fst ?ns1) ''out''), arg_shape = shape_of ?il,
           arg_dtype = dtype_of ?il, arg_order = ''C'', is_output_only = True\<rparr>]"
    unfolding n1 by blast
  then have o1: "map_sum id (\<lambda>bp. filter is_output_only (args (program bp)))
        (generate_loopy 3 5 (InArray ?ns1 ?il))
      = Inr [\<lparr>arg_name = ''out'', arg_shape = [Constant 5], arg_dtype = Float64,
                arg_order = ''C'', is_output_only = True\<rparr>]"
    unfolding h1 n1 by simp
  have h2: "generate_loopy 2 5 (InArray ?ns2 ?po) = Inr ?bp2" by code_simp
  have f2: "''out'' \<in> set (map fst ?ns2)" by simp
  have e2: "fst (unique_name (map fst ?ns2) ''out'') = ''out'' @ ''_'' @ str_nat 1"
    by code_simp
  have s1: "''out'' @ ''_'' @ str_nat 1 = ''out_1''" by code_simp
  note inst2 = single_node_output_name[OF h2, unfolded Let_def]
  from inst2
  have "promote_named_arrays_to_outputs 5 ?ns2 [(''out'', ?po)]
          = ?ns2 @ [(fst (unique_name (map fst ?ns2) ''out''),
                     Output 5 (fst (unique_name (map fst ?ns2) ''out'')) ?po)]"
    by blast
  then have pr2: "promote_named_arrays_to_outputs 5 ?ns2 [(''out'', ?po)]
          = ?ns2 @ [(''out_1'', Output 5 ''out_1'' ?po)]"
    unfolding e2 s1 .
  from inst2 f2
  have k2: "\<exists>k. fst (unique_name (map fst ?ns2) ''out'') = ''out'' @ ''_'' @ str_nat k
              \<and> (\<forall>j<k. ''out'' @ ''_'' @ str_nat j \<in> set (map fst ?ns2))"
    by blast
  have p2: "list_all (plain_for (fst (unique_name (map fst ?ns2) ''out''))) (map snd ?ns2)"
    "plain_for (fst (unique_name (map fst ?ns2) ''out'')) ?po"
    by simp_all
  from inst2 p2 have "filter is_output_only (args (program ?bp2))
      = [\<lparr>arg_name = fst (unique_name (map fst ?ns2) ''out''), arg_shape = shape_of ?po,
           arg_dtype = dtype_of ?po, arg_order = ''C'', is_output_only = True\<rparr>]"
    by blast
  then have o2: "map_sum id (\<lambda>bp. filter is_output_only (args (program bp)))
        (generate_loopy 2 5 (InArray ?ns2 ?po))
      = Inr [\<lparr>arg_name = ''out_1'', arg_shape = [Constant 10], arg_dtype = Float64,
                arg_order = ''C'', is_output_only = True\<rparr>]"
    unfolding h2 e2 s1 by simp
  have c1: "generate_loopy 3 5 (InArray ?ns1 ?il) = Inr ?bp1
      \<and> ''out'' \<notin> set (map fst ?ns1)
      \<and> fst (unique_name (map fst ?ns1) ''out'') = ''out''"
    using h1 f1 n1 by blast
  have c2: "generate_loopy 2 5 (InArray ?ns2 ?po) = Inr ?bp2
      \<and> ''out'' \<in> set (map fst ?ns2)
      \<and> fst (unique_name (map fst ?ns2) ''out'') = ''out'' @ ''_'' @ str_nat 1"
    using h2 f2 e2 by blast
  have pr2': "promote_named_arrays_to_outputs 5 ?ns2 [(''out'', ?po)]
      = [(''out'', ?po), (''out_0'', Placeholder 1 ''out_0'' [Constant 3] Float64),
         (''out_1'', Output 5 ''out_1'' ?po)]"
    using pr2 by simp
  from c1 c2 pr2' k2 p1 o1 o2 show ?thesis by blast
qed

end
